theory Spec2Isabelle
  imports Main
begin

section \<open>Shared state of the gateway\<close>

text \<open>
  The module keeps two pieces of global state: the dictionary \<open>config\<close>, of which the
  relay engine reads the lists \<open>receive_whitelist\<close> and \<open>send_blacklist\<close>, and the
  queue \<open>sms_queue\<close>. Both are lists in the source (the blacklist is a YAML list,
  changed with \<open>append\<close> and \<open>remove\<close>), so both are lists here. The calls of the
  \<open>logging\<close> module are kept as a list of (level, message) pairs, oldest first.
  Phone numbers and texts are strings.
\<close>

datatype level = INFO | WARNING | ERROR | CRITICAL

record gateway =
  receive_whitelist :: "string list"
  send_blacklist :: "string list"
  sms_queue :: "(string \<times> string) list"
  logging :: "(level \<times> string) list"

definition log_msg :: "level \<Rightarrow> string \<Rightarrow> gateway \<Rightarrow> gateway" where
  "log_msg l m g = g\<lparr>logging := logging g @ [(l, m)]\<rparr>"

subsection \<open>Lower-casing\<close>

text \<open>
  \<open>text.lower()\<close>: the letters A to Z are mapped to a to z, every other character
  is kept. Characters are 8-bit here, so only the ASCII part of Python's case mapping
  is modelled; the theorems below depend on \<open>lower\<close> only through the value of
  \<open>lower text\<close>.
\<close>

definition lower_char :: "char \<Rightarrow> char" where
  "lower_char c =
     (if (65::nat) \<le> of_char c \<and> of_char c \<le> (90::nat)
      then char_of (of_char c + (32::nat)) else c)"

definition lower :: "string \<Rightarrow> string" where
  "lower s = map lower_char s"

subsection \<open>send_sms: the blacklist-checked enqueue\<close>

definition send_sms :: "gateway \<Rightarrow> string \<Rightarrow> string \<Rightarrow> gateway" where
  "send_sms g number text =
     (if number \<notin> set (send_blacklist g)
      then g\<lparr>sms_queue := sms_queue g @ [(number, text)]\<rparr>
      else log_msg ERROR
             (''Could not sent message to '' @ number @ '', number is blacklisted'') g)"

subsection \<open>read_sms: the command interpreter\<close>

text \<open>
  \<open>list.remove\<close> deletes the first occurrence only, which is \<open>remove1\<close>; it is
  called under the guard \<open>number in config['send_blacklist']\<close>, so it cannot raise.
  In the branch that blocks the sender the reply is sent first and the list is
  extended afterwards, as in the source.
\<close>

definition read_sms :: "gateway \<Rightarrow> string \<Rightarrow> string \<Rightarrow> gateway" where
  "read_sms g number text =
     (if number \<in> set (receive_whitelist g) then
        (let command = lower text in
         if command = ''ping'' then send_sms g number ''PONG''
         else if command = ''pause'' then
           (if number \<in> set (send_blacklist g) then
              send_sms (g\<lparr>send_blacklist := remove1 number (send_blacklist g)\<rparr>) number ''OK''
            else
              (let g' = send_sms g number ''OK''
               in g'\<lparr>send_blacklist := send_blacklist g' @ [number]\<rparr>))
         else send_sms g number ''ERROR'')
      else log_msg ERROR
             (''Denied access from '' @ number @ '', number is not authorized'') g)"

section \<open>Exceptions and the modem\<close>

text \<open>
  Exceptions are values. Every class below is a subclass of Python's \<open>Exception\<close>,
  so \<open>except Exception\<close> catches each of them and \<open>except ValueError\<close> catches only
  \<open>ValueError\<close>. \<open>str_exn\<close> is the text that \<open>'%s' % e\<close> prints (quotation marks
  inside the texts are left out).
\<close>

datatype exn =
    GammuError string
  | IndexError string
  | TypeError string
  | AttributeError string
  | ValueError string
  | KeyError string

fun str_exn :: "exn \<Rightarrow> string" where
  "str_exn (GammuError m) = m"
| "str_exn (IndexError m) = m"
| "str_exn (TypeError m) = m"
| "str_exn (AttributeError m) = m"
| "str_exn (ValueError m) = m"
| "str_exn (KeyError m) = m"

text \<open>
  The modem driver (python-gammu's \<open>StateMachine\<close>) is not part of the repository.
  It is a parameter: a device state \<open>'d\<close> and the four calls the relay engine makes,
  each returning its result or the exception it raised, together with the device
  state after the call. In \<open>GetNextSMS\<close> the argument \<open>None\<close> stands for
  \<open>Start=True\<close> and \<open>Some l\<close> for \<open>Location=l\<close>; \<open>Folder\<close> is always 0.
\<close>

record sms_status =
  SIMUsed :: int
  PhoneUsed :: int
  TemplatesUsed :: int

record sms_part =
  Location :: int
  Number :: string
  Text :: string

record sms_message =
  msg_Number :: string
  msg_Text :: string
  msg_SMSC_Location :: int

record 'd state_machine =
  GetSMSStatus :: "'d \<Rightarrow> (exn + sms_status) \<times> 'd"
  GetNextSMS :: "int option \<Rightarrow> 'd \<Rightarrow> (exn + sms_part list) \<times> 'd"
  DeleteSMS :: "int \<Rightarrow> 'd \<Rightarrow> (exn + unit) \<times> 'd"
  SendSMS :: "sms_message \<Rightarrow> 'd \<Rightarrow> (exn + unit) \<times> 'd"

section \<open>sms_sender: the sender worker\<close>

text \<open>
  One iteration of \<open>while True\<close>: \<open>sms_queue.get()\<close> blocks on an empty queue
  (\<open>None\<close>: no iteration happens), otherwise it removes the oldest item; the item is
  passed to \<open>SendSMS\<close> once and the outcome is logged. Nothing puts the item back.
\<close>

definition sms_sender_step ::
  "'d state_machine \<Rightarrow> 'd \<times> gateway \<Rightarrow> ('d \<times> gateway) option" where
  "sms_sender_step sm s =
     (case s of (d, g) \<Rightarrow>
        (case sms_queue g of
           [] \<Rightarrow> None
         | data # rest \<Rightarrow>
             (let g1 = g\<lparr>sms_queue := rest\<rparr>;
                  sms_message = \<lparr>msg_Number = fst data, msg_Text = snd data,
                                 msg_SMSC_Location = 1\<rparr>
              in (case SendSMS sm sms_message d of
                    (Inr u, d') \<Rightarrow>
                      Some (d', log_msg INFO
                                  (''Successfully sent SMS message to '' @ fst data) g1)
                  | (Inl e, d') \<Rightarrow>
                      Some (d', log_msg ERROR
                                  (''Error while sending SMS message to '' @ fst data
                                     @ '' ('' @ str_exn e @ '')'') g1)))))"

text \<open>
  The loop, for at most \<open>n\<close> iterations; it stops earlier only where the source
  would wait for a producer.
\<close>

fun sms_sender :: "'d state_machine \<Rightarrow> nat \<Rightarrow> 'd \<times> gateway \<Rightarrow> 'd \<times> gateway" where
  "sms_sender sm 0 s = s"
| "sms_sender sm (Suc n) s =
     (case sms_sender_step sm s of None \<Rightarrow> s | Some s' \<Rightarrow> sms_sender sm n s')"

section \<open>sms_reader: the inbound poller\<close>

text \<open>
  The \<open>while remain > 0\<close> loop inside the \<open>try\<close>. Its variables are \<open>start\<close>,
  \<open>sms\<close> (unbound before the first fetch, here the empty list, which is never read
  while \<open>start\<close> holds), \<open>remain\<close> and \<open>sms_messages\<close>. The result is the exception
  that left the \<open>try\<close> block, if any, the list \<open>sms_messages\<close> at that moment and
  the device state. \<open>sms[0]\<close> on an empty list raises \<open>IndexError\<close>.
\<close>

function drain ::
  "'d state_machine \<Rightarrow> bool \<Rightarrow> sms_part list \<Rightarrow> int \<Rightarrow> sms_part list list \<Rightarrow> 'd
     \<Rightarrow> (exn option \<times> sms_part list list) \<times> 'd" where
  "drain sm start sms remain sms_messages d =
     (if remain > 0 then
        (case (if start then GetNextSMS sm None d
               else (case sms of
                       [] \<Rightarrow> (Inl (IndexError ''list index out of range''), d)
                     | p # ps \<Rightarrow> GetNextSMS sm (Some (Location p)) d)) of
           (Inl e, d1) \<Rightarrow> ((Some e, sms_messages), d1)
         | (Inr sms', d1) \<Rightarrow>
             (case sms' of
                [] \<Rightarrow> ((Some (IndexError ''list index out of range''), sms_messages), d1)
              | q # qs \<Rightarrow>
                  (case DeleteSMS sm (Location q) d1 of
                     (Inl e, d2) \<Rightarrow> ((Some e, sms_messages), d2)
                   | (Inr u, d2) \<Rightarrow>
                       drain sm False sms' (remain - int (length sms'))
                         (sms_messages @ [sms']) d2)))
      else ((None, sms_messages), d))"
  by pat_completeness auto
termination
  by (relation "measure (\<lambda>(sm, start, sms, remain, sms_messages, d). nat remain)") auto

text \<open>The equation of \<open>drain\<close> is unfolded by hand, one iteration at a time.\<close>

declare drain.simps [simp del]

text \<open>The \<open>try\<close> block of one cycle: the status query, then the loop.\<close>

definition fetch_all ::
  "'d state_machine \<Rightarrow> 'd \<Rightarrow> (exn option \<times> sms_part list list) \<times> 'd" where
  "fetch_all sm d =
     (case GetSMSStatus sm d of
        (Inl e, d1) \<Rightarrow> ((Some e, []), d1)
      | (Inr status, d1) \<Rightarrow>
          drain sm True [] (SIMUsed status + PhoneUsed status + TemplatesUsed status) [] d1)"

text \<open>
  The \<open>for sms in sms_messages\<close> loop. It is outside the \<open>try\<close>, so an exception
  here (\<open>Inl\<close>) would end the thread.
\<close>

fun dispatch :: "sms_part list list \<Rightarrow> gateway \<Rightarrow> exn + gateway" where
  "dispatch [] g = Inr g"
| "dispatch (sms # rest) g =
     (case sms of
        [] \<Rightarrow> Inl (IndexError ''list index out of range'')
      | p # ps \<Rightarrow>
          dispatch rest
            (read_sms (log_msg INFO (''Received SMS message from '' @ Number p) g)
               (Number p) (Text p)))"

text \<open>One pass of the outer \<open>while True\<close>; \<open>time.sleep(1)\<close> changes no state.\<close>

definition sms_reader_cycle ::
  "'d state_machine \<Rightarrow> 'd \<times> gateway \<Rightarrow> exn + ('d \<times> gateway)" where
  "sms_reader_cycle sm s =
     (case s of (d, g) \<Rightarrow>
        (case fetch_all sm d of
           ((err, sms_messages), d') \<Rightarrow>
             (let g1 = (case err of
                          None \<Rightarrow> g
                        | Some e \<Rightarrow>
                            log_msg CRITICAL
                              (''Could not read SMS messages ('' @ str_exn e @ '')'') g)
              in (case dispatch sms_messages g1 of
                    Inl e \<Rightarrow> Inl e
                  | Inr g2 \<Rightarrow> Inr (d', g2)))))"

fun sms_reader ::
  "'d state_machine \<Rightarrow> nat \<Rightarrow> 'd \<times> gateway \<Rightarrow> exn + ('d \<times> gateway)" where
  "sms_reader sm 0 s = Inr s"
| "sms_reader sm (Suc n) s =
     (case sms_reader_cycle sm s of Inl e \<Rightarrow> Inl e | Inr s' \<Rightarrow> sms_reader sm n s')"

subsection \<open>What the device did during a cycle\<close>

text \<open>
  The next three definitions follow the words of the claim about a failing cycle, not
  the loop: they speak of the device calls only. \<open>fetched_and_deleted\<close> says that the
  records \<open>rs\<close> were fetched and deleted one after the other: each round happens while
  parts are still counted as pending (\<open>remain\<close>, the count the status query reported
  less the parts fetched so far), \<open>GetNextSMS\<close> at the cursor returns the record, and
  \<open>DeleteSMS\<close> at the location of its first part succeeds. The cursor is \<open>None\<close> for
  the first fetch and the location of the previous record afterwards. The result is the
  cursor, the pending count and the device state after these rounds.
\<close>

fun fetched_and_deleted ::
  "'d state_machine \<Rightarrow> int option \<Rightarrow> int \<Rightarrow> 'd \<Rightarrow> sms_part list list
     \<Rightarrow> (int option \<times> int \<times> 'd) option" where
  "fetched_and_deleted sm cursor remain d [] = Some (cursor, remain, d)"
| "fetched_and_deleted sm cursor remain d (r # rs) =
     (case r of
        [] \<Rightarrow> None
      | q # qs \<Rightarrow>
          (if 0 < remain then
             (case GetNextSMS sm cursor d of
                (Inl e, d1) \<Rightarrow> None
              | (Inr r', d1) \<Rightarrow>
                  (if r' = r then
                     (case DeleteSMS sm (Location q) d1 of
                        (Inl e, d2) \<Rightarrow> None
                      | (Inr u, d2) \<Rightarrow>
                          fetched_and_deleted sm (Some (Location q))
                            (remain - int (length r)) d2 rs)
                   else None))
           else None))"

text \<open>
  \<open>failing_round\<close>: the round at the cursor does not complete. Either \<open>GetNextSMS\<close>
  raises, or it returns no part at all (so that reading the first part raises), or
  \<open>DeleteSMS\<close> raises. The result is the exception and the device state it leaves.
\<close>

definition failing_round ::
  "'d state_machine \<Rightarrow> int option \<Rightarrow> 'd \<Rightarrow> (exn \<times> 'd) option" where
  "failing_round sm cursor d =
     (case GetNextSMS sm cursor d of
        (Inl e, d1) \<Rightarrow> Some (e, d1)
      | (Inr [], d1) \<Rightarrow> Some (IndexError ''list index out of range'', d1)
      | (Inr (q # qs), d1) \<Rightarrow>
          (case DeleteSMS sm (Location q) d1 of
             (Inl e, d2) \<Rightarrow> Some (e, d2)
           | (Inr u, d2) \<Rightarrow> None))"

text \<open>The loop variables \<open>start\<close> and \<open>sms\<close> stand at the cursor.\<close>

definition at_cursor :: "bool \<Rightarrow> sms_part list \<Rightarrow> int option \<Rightarrow> bool" where
  "at_cursor start sms cursor =
     (if start then cursor = None
      else (case sms of [] \<Rightarrow> False | p # ps \<Rightarrow> cursor = Some (Location p)))"

text \<open>
  Handing one record to the command interpreter, as the body of the \<open>for\<close> loop does
  with the first part of the record.
\<close>

definition handle_record :: "gateway \<Rightarrow> sms_part list \<Rightarrow> gateway" where
  "handle_record g r =
     read_sms (log_msg INFO (''Received SMS message from '' @ Number (hd r)) g)
       (Number (hd r)) (Text (hd r))"

section \<open>receive_sms: the ingress handler\<close>

subsection \<open>Python values decoded from JSON\<close>

text \<open>
  \<open>json.loads\<close> yields a dictionary, a list, a unicode string, a number, a boolean or
  \<open>None\<close>. A dictionary is the list of its items in the order in which it iterates,
  its keys distinct. The value of a number plays no role in the handler.
\<close>

datatype json =
    JNull
  | JBool bool
  | JNumber int
  | JString string
  | JArray "json list"
  | JObject "(string \<times> json) list"

fun starts_with :: "string \<Rightarrow> string \<Rightarrow> bool" where
  "starts_with s [] = True"
| "starts_with [] (p # ps) = False"
| "starts_with (c # cs) (p # ps) = (c = p \<and> starts_with cs ps)"

fun contains_str :: "string \<Rightarrow> string \<Rightarrow> bool" where
  "contains_str [] sub = (sub = [])"
| "contains_str (c # cs) sub = (starts_with (c # cs) sub \<or> contains_str cs sub)"

text \<open>
  \<open>key in data\<close> for a string \<open>key\<close>: key membership in a dictionary, element
  membership in a list, the substring test in a string, \<open>TypeError\<close> otherwise.
\<close>

fun py_in :: "string \<Rightarrow> json \<Rightarrow> exn + bool" where
  "py_in key (JObject kvs) = Inr (key \<in> set (map fst kvs))"
| "py_in key (JArray xs) = Inr (JString key \<in> set xs)"
| "py_in key (JString s) = Inr (contains_str s key)"
| "py_in key JNull = Inl (TypeError ''argument of type NoneType is not iterable'')"
| "py_in key (JBool b) = Inl (TypeError ''argument of type bool is not iterable'')"
| "py_in key (JNumber n) = Inl (TypeError ''argument of type int is not iterable'')"

text \<open>\<open>data[key]\<close> for a string \<open>key\<close>.\<close>

fun py_getitem :: "json \<Rightarrow> string \<Rightarrow> exn + json" where
  "py_getitem (JObject kvs) key =
     (case map_of kvs key of None \<Rightarrow> Inl (KeyError key) | Some v \<Rightarrow> Inr v)"
| "py_getitem (JArray xs) key = Inl (TypeError ''list indices must be integers, not unicode'')"
| "py_getitem (JString s) key = Inl (TypeError ''string indices must be integers'')"
| "py_getitem JNull key = Inl (TypeError ''NoneType object has no attribute __getitem__'')"
| "py_getitem (JBool b) key = Inl (TypeError ''bool object has no attribute __getitem__'')"
| "py_getitem (JNumber n) key = Inl (TypeError ''int object has no attribute __getitem__'')"

text \<open>\<open>for x in v\<close>: the elements of a list, the keys of a dictionary, the characters of a string.\<close>

fun py_iter :: "json \<Rightarrow> exn + json list" where
  "py_iter (JArray xs) = Inr xs"
| "py_iter (JObject kvs) = Inr (map (\<lambda>kv. JString (fst kv)) kvs)"
| "py_iter (JString s) = Inr (map (\<lambda>c. JString [c]) s)"
| "py_iter JNull = Inl (TypeError ''NoneType object is not iterable'')"
| "py_iter (JBool b) = Inl (TypeError ''bool object is not iterable'')"
| "py_iter (JNumber n) = Inl (TypeError ''int object is not iterable'')"

text \<open>\<open>n.split(sep)\<close> with a one-character separator, and \<open>sep.join(xs)\<close>.\<close>

fun py_split :: "string \<Rightarrow> char \<Rightarrow> string list" where
  "py_split [] sep = [[]]"
| "py_split (c # cs) sep =
     (if c = sep then [] # py_split cs sep
      else (case py_split cs sep of [] \<Rightarrow> [[c]] | w # ws \<Rightarrow> (c # w) # ws))"

fun join :: "string \<Rightarrow> string list \<Rightarrow> string" where
  "join sep [] = []"
| "join sep [x] = x"
| "join sep (x # y # ys) = x @ sep @ join sep (y # ys)"

subsection \<open>The request and the response\<close>

text \<open>
  What the handler reads of \<open>flask.request\<close>: the method (Flask also routes HEAD to a
  view that accepts GET), \<open>args.get('number')\<close>, \<open>args.get('message')\<close>, and the
  result of \<open>json.loads(flask.request.data.decode('utf-8'))\<close>, where \<open>Inl m\<close> means
  that decoding or parsing raised a \<open>ValueError\<close> with text \<open>m\<close>. The response is the
  status and message put into the JSON answer and the HTTP code.
\<close>

datatype http_method = GET | POST | HEAD

record request =
  req_method :: http_method
  arg_number :: "string option"
  arg_message :: "string option"
  json_data :: "string + json"

datatype response = Response string string nat

definition error_response :: "string \<Rightarrow> response" where
  "error_response m = Response ''error'' m 500"

definition ok_response :: response where
  "ok_response = Response ''ok'' ''messages sent'' 202"

subsection \<open>Reading the messages of a POST body\<close>

text \<open>\<open>key in data and isinstance(data[key], unicode)\<close>; the string is returned when it holds.\<close>

definition has_unicode :: "json \<Rightarrow> string \<Rightarrow> exn + string option" where
  "has_unicode data key =
     (case py_in key data of
        Inl e \<Rightarrow> Inl e
      | Inr False \<Rightarrow> Inr None
      | Inr True \<Rightarrow>
          (case py_getitem data key of
             Inl e \<Rightarrow> Inl e
           | Inr (JString s) \<Rightarrow> Inr (Some s)
           | Inr v \<Rightarrow> Inr None))"

text \<open>\<open>key in data and isinstance(data[key], list)\<close>.\<close>

definition has_list :: "json \<Rightarrow> string \<Rightarrow> exn + json list option" where
  "has_list data key =
     (case py_in key data of
        Inl e \<Rightarrow> Inl e
      | Inr False \<Rightarrow> Inr None
      | Inr True \<Rightarrow>
          (case py_getitem data key of
             Inl e \<Rightarrow> Inl e
           | Inr (JArray xs) \<Rightarrow> Inr (Some xs)
           | Inr v \<Rightarrow> Inr None))"

text \<open>\<open>for message in data['messages']\<close>: strings are appended, other values are logged.\<close>

fun collect_messages :: "json list \<Rightarrow> string list \<times> gateway \<Rightarrow> string list \<times> gateway" where
  "collect_messages [] acc = acc"
| "collect_messages (JString m # rest) (messages, g) =
     collect_messages rest (messages @ [m], g)"
| "collect_messages (v # rest) (messages, g) =
     collect_messages rest
       (messages, log_msg WARNING ''Ignored non string value in messages'' g)"

text \<open>
  The text built from one alert, \<open>None\<close> when it has no annotations. \<open>fmt v\<close> stands
  for Python's rendering of the value \<open>v\<close> by \<open>%s\<close>, which is a parameter.
\<close>

definition alert_text :: "(json \<Rightarrow> string) \<Rightarrow> json \<Rightarrow> exn + string option" where
  "alert_text fmt alert =
     (case py_in ''annotations'' alert of
        Inl e \<Rightarrow> Inl e
      | Inr False \<Rightarrow> Inr None
      | Inr True \<Rightarrow>
          (case py_getitem alert ''annotations'' of
             Inl e \<Rightarrow> Inl e
           | Inr (JObject kvs) \<Rightarrow>
               Inr (Some (join '', ''
                  (map (\<lambda>key. key @ ''='' @
                          (case map_of kvs key of None \<Rightarrow> [] | Some v \<Rightarrow> fmt v))
                       (map fst kvs))))
           | Inr v \<Rightarrow> Inl (AttributeError ''object has no attribute keys'')))"

fun collect_alerts ::
  "(json \<Rightarrow> string) \<Rightarrow> json list \<Rightarrow> string list \<Rightarrow> exn + string list" where
  "collect_alerts fmt [] messages = Inr messages"
| "collect_alerts fmt (alert # rest) messages =
     (case alert_text fmt alert of
        Inl e \<Rightarrow> Inl e
      | Inr None \<Rightarrow> collect_alerts fmt rest messages
      | Inr (Some m) \<Rightarrow> collect_alerts fmt rest (messages @ [m]))"

text \<open>
  The \<open>if\<close>/\<open>elif\<close> chain on the decoded body. \<open>Inl e\<close>: an exception that
  \<open>except ValueError\<close> does not catch; \<open>Inr None\<close>: the final \<open>else\<close>;
  \<open>Inr (Some messages)\<close>: the list \<open>messages\<close> after the chain.
\<close>

definition read_post ::
  "(json \<Rightarrow> string) \<Rightarrow> json \<Rightarrow> gateway \<Rightarrow> (exn + string list option) \<times> gateway" where
  "read_post fmt data g =
     (case has_unicode data ''message'' of
        Inl e \<Rightarrow> (Inl e, g)
      | Inr (Some m) \<Rightarrow> (Inr (Some [m]), g)
      | Inr None \<Rightarrow>
          (case has_list data ''messages'' of
             Inl e \<Rightarrow> (Inl e, g)
           | Inr (Some xs) \<Rightarrow>
               (case collect_messages xs ([], g) of
                  (messages, g') \<Rightarrow> (Inr (Some messages), g'))
           | Inr None \<Rightarrow>
               (case py_in ''alerts'' data of
                  Inl e \<Rightarrow> (Inl e, g)
                | Inr False \<Rightarrow> (Inr None, g)
                | Inr True \<Rightarrow>
                    (case py_getitem data ''alerts'' of
                       Inl e \<Rightarrow> (Inl e, g)
                     | Inr alerts \<Rightarrow>
                         (case py_iter alerts of
                            Inl e \<Rightarrow> (Inl e, g)
                          | Inr xs \<Rightarrow>
                              (case collect_alerts fmt xs [] of
                                 Inl e \<Rightarrow> (Inl e, g)
                               | Inr messages \<Rightarrow> (Inr (Some messages), g)))))))"

subsection \<open>The handler\<close>

text \<open>The two nested \<open>for\<close> loops at the end of the handler.\<close>

definition send_loop :: "string list \<Rightarrow> string list \<Rightarrow> gateway \<Rightarrow> gateway" where
  "send_loop numbers messages g =
     foldl (\<lambda>g number. foldl (\<lambda>g message. send_sms g number message) g messages)
       g numbers"

text \<open>
  The result is the response the handler returns, or the exception that leaves it
  (\<open>Inl\<close>; Flask then answers with its own error page), and the state afterwards.
  An empty string is false in \<open>if message\<close>.
\<close>

definition receive_sms ::
  "(json \<Rightarrow> string) \<Rightarrow> request \<Rightarrow> gateway \<Rightarrow> (exn + response) \<times> gateway" where
  "receive_sms fmt req g =
     (case arg_number req of
        None \<Rightarrow>
          (Inr (error_response ''could not read phone numbers''),
           log_msg ERROR ''Could not read phone numbers'' g)
      | Some n \<Rightarrow>
          (let numbers = py_split n CHR '','' in
           case req_method req of
             GET \<Rightarrow>
               (case arg_message req of
                  None \<Rightarrow>
                    (Inr (error_response ''could not read message''),
                     log_msg ERROR ''Could not read message'' g)
                | Some message \<Rightarrow>
                    if message \<noteq> [] then
                      (Inr ok_response, send_loop numbers [message] g)
                    else
                      (Inr (error_response ''could not read message''),
                       log_msg ERROR ''Could not read message'' g))
           | POST \<Rightarrow>
               (case json_data req of
                  Inl m \<Rightarrow>
                    (Inr (error_response ''could not read JSON data''),
                     log_msg ERROR (''Could not read POST data ('' @ m @ '')'') g)
                | Inr data \<Rightarrow>
                    (case read_post fmt data g of
                       (Inl e, g') \<Rightarrow> (Inl e, g')
                     | (Inr None, g') \<Rightarrow>
                         (Inr (error_response ''could not read message from JSON''),
                          log_msg ERROR ''Could not read message from JSON'' g')
                     | (Inr (Some messages), g') \<Rightarrow>
                         (Inr ok_response, send_loop numbers messages g')))
           | HEAD \<Rightarrow> (Inr ok_response, send_loop numbers [] g)))"

text \<open>
  The order the specification gives for the calls of the enqueue operation:
  recipient-major, message-minor.
\<close>

definition recipient_major_pairs :: "string list \<Rightarrow> string list \<Rightarrow> (string \<times> string) list" where
  "recipient_major_pairs numbers messages =
     concat (map (\<lambda>number. map (\<lambda>message. (number, message)) messages) numbers)"

text \<open>The enqueue operation called once for each pair of a list, in the order of the list.\<close>

definition enqueue_each :: "(string \<times> string) list \<Rightarrow> gateway \<Rightarrow> gateway" where
  "enqueue_each pairs g = foldl (\<lambda>g (number, message). send_sms g number message) g pairs"

section \<open>Concrete states and a concrete modem\<close>

text \<open>
  Three configurations with the single allowed sender \<open>+100\<close>: not blocked, blocked,
  and listed twice in the blacklist (as a configuration file may do).
\<close>

definition example_open :: gateway where
  "example_open =
     \<lparr>receive_whitelist = [''+100''], send_blacklist = [], sms_queue = [], logging = []\<rparr>"

definition example_blocked :: gateway where
  "example_blocked =
     \<lparr>receive_whitelist = [''+100''], send_blacklist = [''+100''], sms_queue = [],
      logging = []\<rparr>"

definition example_duplicate :: gateway where
  "example_duplicate =
     \<lparr>receive_whitelist = [''+100''], send_blacklist = [''+100'', ''+100''], sms_queue = [],
      logging = []\<rparr>"

text \<open>
  A modem for examples. It stores records in \<open>inbox\<close>, reports \<open>claimed\<close> as the number
  of stored records, hands out the first stored record and fails with \<open>ERR_EMPTY\<close>
  when there is none, deletes by location, notes every send attempt in \<open>attempted\<close>
  and fails to send to the numbers in \<open>unreachable\<close>.
\<close>

record modem =
  inbox :: "sms_part list list"
  claimed :: int
  attempted :: "sms_message list"
  unreachable :: "string list"

definition example_sm :: "modem state_machine" where
  "example_sm =
     \<lparr>GetSMSStatus = (\<lambda>d. (Inr \<lparr>SIMUsed = claimed d, PhoneUsed = 0, TemplatesUsed = 0\<rparr>, d)),
      GetNextSMS = (\<lambda>arg d. case inbox d of
                      [] \<Rightarrow> (Inl (GammuError ''ERR_EMPTY''), d)
                    | r # rs \<Rightarrow> (Inr r, d)),
      DeleteSMS = (\<lambda>l d. (Inr (),
                     d\<lparr>inbox := filter (\<lambda>r. case r of [] \<Rightarrow> True | p # ps \<Rightarrow> Location p \<noteq> l)
                                   (inbox d)\<rparr>)),
      SendSMS = (\<lambda>m d. (if msg_Number m \<in> set (unreachable d)
                          then Inl (GammuError ''ERR_TIMEOUT'') else Inr (),
                         d\<lparr>attempted := attempted d @ [m]\<rparr>))\<rparr>"

text \<open>
  Two stored messages from \<open>+100\<close>, the second in two parts, while the status query
  reports four parts.
\<close>

definition example_first :: sms_part where
  "example_first = \<lparr>Location = 1, Number = ''+100'', Text = ''ping''\<rparr>"

definition example_second :: sms_part where
  "example_second = \<lparr>Location = 2, Number = ''+100'', Text = ''status''\<rparr>"

definition example_third :: sms_part where
  "example_third = \<lparr>Location = 3, Number = ''+100'', Text = ''now''\<rparr>"

definition example_modem :: modem where
  "example_modem =
     \<lparr>inbox = [[example_first], [example_second, example_third]],
      claimed = 4, attempted = [], unreachable = [''+300'']\<rparr>"

text \<open>The state \<open>example_open\<close> with two queued items, the first for an unreachable number.\<close>

definition example_queued :: gateway where
  "example_queued = example_open\<lparr>sms_queue := [(''+300'', ''a''), (''+400'', ''b'')]\<rparr>"

section \<open>Helper lemmas\<close>

lemma lower_ping_upper: "lower ''PING'' = ''ping''"
  by code_simp

lemma lower_pause_lower: "lower ''pause'' = ''pause''"
  by code_simp

lemma lower_pause_capital: "lower ''Pause'' = ''pause''"
  by code_simp

lemma lower_hello: "lower ''Hello'' = ''hello''"
  by code_simp

lemma send_sms_send_blacklist: "send_blacklist (send_sms g n t) = send_blacklist g"
  by (simp add: send_sms_def log_msg_def)

lemma send_sms_receive_whitelist: "receive_whitelist (send_sms g n t) = receive_whitelist g"
  by (simp add: send_sms_def log_msg_def)

lemma send_sms_accepted:
  "n \<notin> set (send_blacklist g) \<Longrightarrow> send_sms g n t = g\<lparr>sms_queue := sms_queue g @ [(n, t)]\<rparr>"
  by (simp add: send_sms_def)

lemma send_sms_rejected:
  "n \<in> set (send_blacklist g) \<Longrightarrow>
   send_sms g n t =
     log_msg ERROR (''Could not sent message to '' @ n @ '', number is blacklisted'') g"
  by (simp add: send_sms_def)

lemma read_sms_receive_whitelist: "receive_whitelist (read_sms g n t) = receive_whitelist g"
  by (simp add: read_sms_def log_msg_def Let_def send_sms_receive_whitelist)

lemma read_sms_pause_blacklist:
  "n \<in> set (receive_whitelist g) \<Longrightarrow> lower t = ''pause'' \<Longrightarrow>
   send_blacklist (read_sms g n t) =
     (if n \<in> set (send_blacklist g) then remove1 n (send_blacklist g)
      else send_blacklist g @ [n])"
  by (simp add: read_sms_def Let_def send_sms_send_blacklist)

lemma in_set_count_list: "(x \<in> set xs) = (0 < count_list xs x)"
  by (induction xs) auto

lemma count_list_remove1:
  "count_list (remove1 x xs) y = (if x = y then count_list xs y - 1 else count_list xs y)"
  by (induction xs) auto

lemma distinct_count_list_le: "distinct xs \<Longrightarrow> count_list xs x \<le> 1"
  by (induction xs) (auto simp: in_set_count_list)

lemma insert_remove1: "x \<in> set xs \<Longrightarrow> insert x (set (remove1 x xs)) = set xs"
  by (induction xs) auto

text \<open>
  The command interpreter keeps the blacklist free of duplicates: it appends a number
  only when the number is absent. Duplicates can therefore only come from the
  configuration.
\<close>

lemma read_sms_distinct:
  "distinct (send_blacklist g) \<Longrightarrow> distinct (send_blacklist (read_sms g n t))"
  by (simp add: read_sms_def Let_def send_sms_send_blacklist log_msg_def)

section \<open>The command interpreter\<close>

text \<open>
  Where an allowed sender \<open>s\<close> occurs at most once in the blacklist (so for every
  duplicate-free blacklist), two consecutive messages whose lower-casing is \<open>pause\<close>
  leave the membership of \<open>s\<close> in the blacklist as it was before the first one, and
  the blacklist holds the same numbers as before.
\<close>

theorem pause_twice_roundtrip:
  assumes "s \<in> set (receive_whitelist g)"
    and "lower t1 = ''pause''" and "lower t2 = ''pause''"
    and "count_list (send_blacklist g) s \<le> 1"
  shows "(s \<in> set (send_blacklist (read_sms (read_sms g s t1) s t2)))
           = (s \<in> set (send_blacklist g))
       \<and> set (send_blacklist (read_sms (read_sms g s t1) s t2)) = set (send_blacklist g)"
proof (cases "s \<in> set (send_blacklist g)")
  case True
  with assms(4) have "count_list (send_blacklist g) s = 1"
    by (simp add: in_set_count_list)
  then have "s \<notin> set (remove1 s (send_blacklist g))"
    by (simp add: in_set_count_list count_list_remove1)
  with True assms show ?thesis
    by (simp add: read_sms_pause_blacklist read_sms_receive_whitelist insert_remove1)
next
  case False
  with assms show ?thesis
    by (simp add: read_sms_pause_blacklist read_sms_receive_whitelist remove1_append)
qed

theorem pause_twice_roundtrip_witness:
  "''+100'' \<in> set (receive_whitelist example_blocked)
   \<and> lower ''pause'' = ''pause'' \<and> lower ''Pause'' = ''pause''
   \<and> count_list (send_blacklist example_blocked) ''+100'' \<le> 1
   \<and> ''+100'' \<in> set (send_blacklist
        (read_sms (read_sms example_blocked ''+100'' ''pause'') ''+100'' ''Pause''))"
proof -
  have a: "''+100'' \<in> set (receive_whitelist example_blocked)"
    by (simp add: example_blocked_def)
  have b: "count_list (send_blacklist example_blocked) ''+100'' \<le> 1"
    by (simp add: example_blocked_def)
  have c: "''+100'' \<in> set (send_blacklist example_blocked)"
    by (simp add: example_blocked_def)
  from pause_twice_roundtrip [OF a lower_pause_lower lower_pause_capital b] c
  show ?thesis
    using a b lower_pause_lower lower_pause_capital by simp
qed

lemma pause_twice_roundtrip_distinct:
  assumes "s \<in> set (receive_whitelist g)"
    and "lower t1 = ''pause''" and "lower t2 = ''pause''"
    and "distinct (send_blacklist g)"
  shows "(s \<in> set (send_blacklist (read_sms (read_sms g s t1) s t2)))
           = (s \<in> set (send_blacklist g))"
proof -
  from assms(4) have "count_list (send_blacklist g) s \<le> 1"
    by (rule distinct_count_list_le)
  with pause_twice_roundtrip [OF assms(1-3)] show ?thesis
    by simp
qed

text \<open>
  C1 is what the toggle is written to do, and the code misses it where the configured
  blacklist names the sender twice. \<open>remove\<close> deletes one occurrence only: after the
  first \<open>pause\<close> the sender \<open>+100\<close> is still blocked, and the reply \<open>OK\<close>, sent after
  the removal, is dropped with the rejection logged; the second \<open>pause\<close> unblocks.
  So the sender is blocked before the two commands and not blocked after them.
\<close>

theorem pause_twice_duplicate_entry:
  "''+100'' \<in> set (receive_whitelist example_duplicate)
   \<and> lower ''pause'' = ''pause''
   \<and> ''+100'' \<in> set (send_blacklist example_duplicate)
   \<and> send_blacklist (read_sms example_duplicate ''+100'' ''pause'') = [''+100'']
   \<and> sms_queue (read_sms example_duplicate ''+100'' ''pause'') = []
   \<and> logging (read_sms example_duplicate ''+100'' ''pause'')
       = [(ERROR, ''Could not sent message to +100, number is blacklisted'')]
   \<and> ''+100'' \<notin> set (send_blacklist
        (read_sms (read_sms example_duplicate ''+100'' ''pause'') ''+100'' ''pause''))"
  by (simp add: example_duplicate_def read_sms_def send_sms_def log_msg_def
      lower_pause_lower Let_def)

text \<open>
  C2. For an allowed sender \<open>s\<close> that is not blocked, a message whose lower-casing is
  \<open>pause\<close> first passes the reply \<open>OK\<close> through the blacklist check, which still
  accepts it, and only then appends \<open>s\<close> to the blacklist: the reply is the new last
  item of the queue, \<open>s\<close> is blocked afterwards, and no rejection is logged.
\<close>

theorem pause_replies_then_blocks:
  assumes "s \<in> set (receive_whitelist g)" and "s \<notin> set (send_blacklist g)"
    and "lower t = ''pause''"
  shows "read_sms g s t
           = (send_sms g s ''OK'')\<lparr>send_blacklist := send_blacklist g @ [s]\<rparr>
       \<and> sms_queue (read_sms g s t) = sms_queue g @ [(s, ''OK'')]
       \<and> send_blacklist (read_sms g s t) = send_blacklist g @ [s]
       \<and> s \<in> set (send_blacklist (read_sms g s t))
       \<and> logging (read_sms g s t) = logging g"
  using assms by (simp add: read_sms_def Let_def send_sms_def)

theorem pause_replies_then_blocks_witness:
  "''+100'' \<in> set (receive_whitelist example_open)
   \<and> ''+100'' \<notin> set (send_blacklist example_open)
   \<and> lower ''Pause'' = ''pause''
   \<and> sms_queue (read_sms example_open ''+100'' ''Pause'') = [(''+100'', ''OK'')]
   \<and> send_blacklist (read_sms example_open ''+100'' ''Pause'') = [''+100'']"
proof -
  have a: "''+100'' \<in> set (receive_whitelist example_open)"
    by (simp add: example_open_def)
  have b: "''+100'' \<notin> set (send_blacklist example_open)"
    by (simp add: example_open_def)
  have q: "sms_queue example_open = []" and l: "send_blacklist example_open = []"
    by (simp_all add: example_open_def)
  from pause_replies_then_blocks [OF a b lower_pause_capital, THEN conjunct2]
    a b q l lower_pause_capital
  show ?thesis
    by simp
qed

text \<open>
  C3, as amended. For an allowed sender \<open>s\<close> and a text whose lower-casing is \<open>ping\<close>,
  the whitelist and the blacklist are unchanged, and if \<open>s\<close> is not blocked the reply
  \<open>PONG\<close> to \<open>s\<close> is appended to the queue.
\<close>

theorem ping_replies_pong:
  assumes "s \<in> set (receive_whitelist g)" and "lower t = ''ping''"
  shows "receive_whitelist (read_sms g s t) = receive_whitelist g
       \<and> send_blacklist (read_sms g s t) = send_blacklist g
       \<and> (s \<notin> set (send_blacklist g) \<longrightarrow>
            sms_queue (read_sms g s t) = sms_queue g @ [(s, ''PONG'')])"
  using assms by (simp add: read_sms_def Let_def send_sms_def log_msg_def)

theorem ping_replies_pong_witness:
  "''+100'' \<in> set (receive_whitelist example_open) \<and> lower ''PING'' = ''ping''
   \<and> ''+100'' \<notin> set (send_blacklist example_open)
   \<and> send_blacklist (read_sms example_open ''+100'' ''PING'') = []
   \<and> sms_queue (read_sms example_open ''+100'' ''PING'') = [(''+100'', ''PONG'')]"
proof -
  have a: "''+100'' \<in> set (receive_whitelist example_open)"
    by (simp add: example_open_def)
  have b: "''+100'' \<notin> set (send_blacklist example_open)"
    by (simp add: example_open_def)
  have q: "sms_queue example_open = []" and l: "send_blacklist example_open = []"
    by (simp_all add: example_open_def)
  from ping_replies_pong [OF a lower_ping_upper] a b q l lower_ping_upper
  show ?thesis
    by simp
qed

text \<open>
  C3 as stated fails for an allowed sender that is blocked: the reply goes through the
  blacklist check and is dropped, so nothing is pushed.
\<close>

theorem ping_blocked_counterexample:
  "''+100'' \<in> set (receive_whitelist example_blocked) \<and> lower ''PING'' = ''ping''
   \<and> sms_queue (read_sms example_blocked ''+100'' ''PING'')
       \<noteq> sms_queue example_blocked @ [(''+100'', ''PONG'')]
   \<and> sms_queue (read_sms example_blocked ''+100'' ''PING'') = []"
  by (simp add: example_blocked_def read_sms_def send_sms_def log_msg_def
      lower_ping_upper Let_def)

text \<open>
  C4. A message from a sender that is not in the whitelist changes neither list and
  pushes nothing; the only effect is the log entry of the denial.
\<close>

theorem read_sms_denied:
  assumes "s \<notin> set (receive_whitelist g)"
  shows "read_sms g s t =
           log_msg ERROR (''Denied access from '' @ s @ '', number is not authorized'') g
       \<and> receive_whitelist (read_sms g s t) = receive_whitelist g
       \<and> send_blacklist (read_sms g s t) = send_blacklist g
       \<and> sms_queue (read_sms g s t) = sms_queue g"
  using assms by (simp add: read_sms_def log_msg_def)

theorem read_sms_denied_witness:
  "''+999'' \<notin> set (receive_whitelist example_open)
   \<and> send_blacklist (read_sms example_open ''+999'' ''pause'') = []
   \<and> sms_queue (read_sms example_open ''+999'' ''pause'') = []"
proof -
  have a: "''+999'' \<notin> set (receive_whitelist example_open)"
    by (simp add: example_open_def)
  have q: "sms_queue example_open = []" and l: "send_blacklist example_open = []"
    by (simp_all add: example_open_def)
  from read_sms_denied [OF a, of "''pause''", THEN conjunct2] a q l
  show ?thesis
    by simp
qed

text \<open>
  C10. For an allowed sender \<open>s\<close> every reply is produced by a call of the
  blacklist-checked \<open>send_sms\<close>: \<open>PONG\<close> for \<open>ping\<close>; \<open>OK\<close> for \<open>pause\<close>, sent
  after the removal when \<open>s\<close> was blocked and before the append when it was not;
  \<open>ERROR\<close> for any other text. Hence the queue grows by the reply exactly when \<open>s\<close>
  passes the check at the moment of the call, and not at all otherwise. In particular,
  when \<open>s\<close> is blocked and the text is not \<open>pause\<close>, the queue and the blacklist are
  unchanged and the rejection is logged.
\<close>

theorem blocked_sender_reply_suppressed:
  assumes "s \<in> set (receive_whitelist g)"
  shows "(lower t = ''ping'' \<longrightarrow> read_sms g s t = send_sms g s ''PONG'')
       \<and> (lower t = ''pause'' \<and> s \<in> set (send_blacklist g) \<longrightarrow>
            read_sms g s t
              = send_sms (g\<lparr>send_blacklist := remove1 s (send_blacklist g)\<rparr>) s ''OK'')
       \<and> (lower t = ''pause'' \<and> s \<notin> set (send_blacklist g) \<longrightarrow>
            read_sms g s t
              = (send_sms g s ''OK'')\<lparr>send_blacklist := send_blacklist g @ [s]\<rparr>)
       \<and> (lower t \<noteq> ''ping'' \<and> lower t \<noteq> ''pause'' \<longrightarrow>
            read_sms g s t = send_sms g s ''ERROR'')
       \<and> (lower t = ''pause'' \<and> s \<in> set (send_blacklist g) \<longrightarrow>
            sms_queue (read_sms g s t)
              = sms_queue g @
                  (if s \<in> set (remove1 s (send_blacklist g)) then [] else [(s, ''OK'')]))
       \<and> (lower t = ''pause'' \<and> s \<notin> set (send_blacklist g) \<longrightarrow>
            sms_queue (read_sms g s t) = sms_queue g @ [(s, ''OK'')])
       \<and> (lower t \<noteq> ''pause'' \<longrightarrow>
            sms_queue (read_sms g s t)
              = sms_queue g @
                  (if s \<in> set (send_blacklist g) then []
                   else [(s, if lower t = ''ping'' then ''PONG'' else ''ERROR'')]))
       \<and> (s \<in> set (send_blacklist g) \<and> lower t \<noteq> ''pause'' \<longrightarrow>
            sms_queue (read_sms g s t) = sms_queue g
            \<and> send_blacklist (read_sms g s t) = send_blacklist g
            \<and> logging (read_sms g s t) = logging g @
                [(ERROR, ''Could not sent message to '' @ s @ '', number is blacklisted'')]
            \<and> read_sms g s t
              = send_sms g s (if lower t = ''ping'' then ''PONG'' else ''ERROR''))"
  using assms by (simp add: read_sms_def Let_def send_sms_def log_msg_def)

theorem blocked_sender_reply_suppressed_witness:
  "''+100'' \<in> set (receive_whitelist example_blocked)
   \<and> ''+100'' \<in> set (send_blacklist example_blocked)
   \<and> lower ''PING'' = ''ping'' \<and> lower ''Hello'' \<noteq> ''ping'' \<and> lower ''Hello'' \<noteq> ''pause''
   \<and> lower ''Pause'' = ''pause''
   \<and> sms_queue (read_sms example_blocked ''+100'' ''PING'') = []
   \<and> sms_queue (read_sms example_blocked ''+100'' ''Hello'') = []
   \<and> send_blacklist (read_sms example_blocked ''+100'' ''Hello'') = [''+100'']
   \<and> sms_queue (read_sms example_blocked ''+100'' ''Pause'') = [(''+100'', ''OK'')]
   \<and> ''+100'' \<in> set (receive_whitelist example_open)
   \<and> ''+100'' \<notin> set (send_blacklist example_open)
   \<and> sms_queue (read_sms example_open ''+100'' ''Pause'') = [(''+100'', ''OK'')]
   \<and> sms_queue (read_sms example_open ''+100'' ''Hello'') = [(''+100'', ''ERROR'')]"
proof -
  have a: "''+100'' \<in> set (receive_whitelist example_blocked)"
    by (simp add: example_blocked_def)
  have b: "''+100'' \<in> set (send_blacklist example_blocked)"
    by (simp add: example_blocked_def)
  have c: "lower ''PING'' \<noteq> ''pause''"
    by (simp add: lower_ping_upper)
  have d: "lower ''Hello'' \<noteq> ''pause''" and d': "lower ''Hello'' \<noteq> ''ping''"
    by (simp_all add: lower_hello)
  have q: "sms_queue example_blocked = []"
    and l: "send_blacklist example_blocked = [''+100'']"
    by (simp_all add: example_blocked_def)
  have a': "''+100'' \<in> set (receive_whitelist example_open)"
    by (simp add: example_open_def)
  have b': "''+100'' \<notin> set (send_blacklist example_open)"
    by (simp add: example_open_def)
  have q': "sms_queue example_open = []"
    by (simp add: example_open_def)
  note ping = blocked_sender_reply_suppressed [OF a, of "''PING''",
      THEN conjunct2, THEN conjunct2, THEN conjunct2, THEN conjunct2,
      THEN conjunct2, THEN conjunct2, THEN conjunct1]
  note hello = blocked_sender_reply_suppressed [OF a, of "''Hello''",
      THEN conjunct2, THEN conjunct2, THEN conjunct2, THEN conjunct2,
      THEN conjunct2, THEN conjunct2, THEN conjunct2]
  note pause = blocked_sender_reply_suppressed [OF a, of "''Pause''",
      THEN conjunct2, THEN conjunct2, THEN conjunct2, THEN conjunct2, THEN conjunct1]
  note pause' = blocked_sender_reply_suppressed [OF a', of "''Pause''",
      THEN conjunct2, THEN conjunct2, THEN conjunct2, THEN conjunct2,
      THEN conjunct2, THEN conjunct1]
  note hello' = blocked_sender_reply_suppressed [OF a', of "''Hello''",
      THEN conjunct2, THEN conjunct2, THEN conjunct2, THEN conjunct2,
      THEN conjunct2, THEN conjunct2, THEN conjunct1]
  from ping b c q have 1: "sms_queue (read_sms example_blocked ''+100'' ''PING'') = []"
    by simp
  from hello b d
  have "sms_queue (read_sms example_blocked ''+100'' ''Hello'') = sms_queue example_blocked"
    and "send_blacklist (read_sms example_blocked ''+100'' ''Hello'')
           = send_blacklist example_blocked"
    by blast+
  with q l have 2: "sms_queue (read_sms example_blocked ''+100'' ''Hello'') = []"
    and 3: "send_blacklist (read_sms example_blocked ''+100'' ''Hello'') = [''+100'']"
    by simp_all
  from pause b q l lower_pause_capital
  have 4: "sms_queue (read_sms example_blocked ''+100'' ''Pause'') = [(''+100'', ''OK'')]"
    by simp
  from pause' b' q' lower_pause_capital
  have 5: "sms_queue (read_sms example_open ''+100'' ''Pause'') = [(''+100'', ''OK'')]"
    by simp
  from hello' b' q' d d'
  have 6: "sms_queue (read_sms example_open ''+100'' ''Hello'') = [(''+100'', ''ERROR'')]"
    by simp
  from a b a' b' d d' 1 2 3 4 5 6 lower_ping_upper lower_pause_capital show ?thesis
    by simp
qed

section \<open>The blacklist-checked enqueue\<close>

text \<open>
  C5. \<open>send_sms\<close> always returns normally. For a blocked recipient it leaves the queue
  as it is and logs the rejection; for any other recipient it appends exactly the item
  \<open>(r, t)\<close> at the end of the queue and logs nothing. It changes neither list.
\<close>

theorem send_sms_checks_blacklist:
  "(r \<in> set (send_blacklist g) \<longrightarrow>
      sms_queue (send_sms g r t) = sms_queue g
      \<and> logging (send_sms g r t) = logging g @
          [(ERROR, ''Could not sent message to '' @ r @ '', number is blacklisted'')])
   \<and> (r \<notin> set (send_blacklist g) \<longrightarrow>
      sms_queue (send_sms g r t) = sms_queue g @ [(r, t)]
      \<and> logging (send_sms g r t) = logging g)
   \<and> send_blacklist (send_sms g r t) = send_blacklist g
   \<and> receive_whitelist (send_sms g r t) = receive_whitelist g"
  by (simp add: send_sms_def log_msg_def)

theorem send_sms_checks_blacklist_witness:
  "''+100'' \<in> set (send_blacklist example_blocked)
   \<and> sms_queue (send_sms example_blocked ''+100'' ''hi'') = []
   \<and> ''+100'' \<notin> set (send_blacklist example_open)
   \<and> sms_queue (send_sms example_open ''+100'' ''hi'') = [(''+100'', ''hi'')]"
proof -
  have a: "''+100'' \<in> set (send_blacklist example_blocked)"
    by (simp add: example_blocked_def)
  have b: "''+100'' \<notin> set (send_blacklist example_open)"
    by (simp add: example_open_def)
  have q: "sms_queue example_blocked = []" and q': "sms_queue example_open = []"
    by (simp_all add: example_blocked_def example_open_def)
  from send_sms_checks_blacklist [of "''+100''" example_blocked "''hi''"]
    send_sms_checks_blacklist [of "''+100''" example_open "''hi''"] a b q q'
  show ?thesis
    by simp
qed

section \<open>The sender worker\<close>

text \<open>
  Run on its own for as many iterations as the queue has items, the worker hands each
  item to \<open>SendSMS\<close> exactly once, in queue order and whatever the outcomes, leaves
  the queue empty and writes one log entry per item.
\<close>

lemma sms_sender_drains_queue:
  "\<exists>g'. sms_sender sm (length (sms_queue g)) (d, g) =
          (foldl (\<lambda>d data. snd (SendSMS sm
                    \<lparr>msg_Number = fst data, msg_Text = snd data, msg_SMSC_Location = 1\<rparr> d))
             d (sms_queue g), g')
        \<and> sms_queue g' = []
        \<and> length (logging g') = length (logging g) + length (sms_queue g)"
proof (induction "sms_queue g" arbitrary: d g)
  case Nil
  then show ?case by simp
next
  case (Cons data rest)
  obtain r d1 where send:
    "SendSMS sm \<lparr>msg_Number = fst data, msg_Text = snd data, msg_SMSC_Location = 1\<rparr> d = (r, d1)"
    by (cases "SendSMS sm \<lparr>msg_Number = fst data, msg_Text = snd data, msg_SMSC_Location = 1\<rparr> d")
  from Cons.hyps(2) [symmetric] send obtain g1 where
    step: "sms_sender_step sm (d, g) = Some (d1, g1)" and q1: "sms_queue g1 = rest"
    and l1: "length (logging g1) = Suc (length (logging g))"
    by (cases r) (auto simp: sms_sender_step_def log_msg_def Let_def)
  from Cons.hyps(1) [of g1 d1] q1 obtain g' where
    "sms_sender sm (length rest) (d1, g1) =
       (foldl (\<lambda>d data. snd (SendSMS sm
                 \<lparr>msg_Number = fst data, msg_Text = snd data, msg_SMSC_Location = 1\<rparr> d))
          d1 rest, g')"
    and "sms_queue g' = []"
    and "length (logging g') = length (logging g1) + length rest"
    by auto
  with step send l1 Cons.hyps(2) [symmetric] show ?case
    by simp
qed

text \<open>
  The worker never reads the blacklist: an item that is in the queue is handed to the
  modem whether or not its recipient has been blocked in the meantime.
\<close>

lemma sms_sender_ignores_blacklist:
  "sms_sender_step sm (d, g\<lparr>send_blacklist := bl\<rparr>)
     = map_option (\<lambda>(d', g'). (d', g'\<lparr>send_blacklist := bl\<rparr>)) (sms_sender_step sm (d, g))"
  by (auto simp: sms_sender_step_def log_msg_def Let_def split: list.splits prod.splits sum.splits)

text \<open>One iteration on a queue with a first item.\<close>

lemma sms_sender_step_item:
  assumes "sms_queue g = (number, text) # rest"
    and "SendSMS sm \<lparr>msg_Number = number, msg_Text = text, msg_SMSC_Location = 1\<rparr> d = (r, d')"
  shows "\<exists>g'. sms_sender_step sm (d, g) = Some (d', g')
       \<and> sms_queue g' = rest
       \<and> send_blacklist g' = send_blacklist g
       \<and> receive_whitelist g' = receive_whitelist g
       \<and> logging g' = logging g @
           [case r of
              Inl e \<Rightarrow> (ERROR, ''Error while sending SMS message to '' @ number
                                 @ '' ('' @ str_exn e @ '')'')
            | Inr u \<Rightarrow> (INFO, ''Successfully sent SMS message to '' @ number)]"
  using assms by (cases r) (auto simp: sms_sender_step_def log_msg_def Let_def)

text \<open>
  C6. When the queue holds a first item, one iteration of the worker removes it, calls
  \<open>SendSMS\<close> on it once (the device state afterwards is the one that single call
  leaves), and logs the outcome: an error entry when the call raised, a success entry
  otherwise. In both cases the item is gone from the queue and nothing else of the
  state changes. The loop then goes on: run for one iteration it ends in exactly that
  state; if a second item is queued, two iterations hand that item to \<open>SendSMS\<close>,
  in the device state the first call left, and log its outcome after the first one;
  and run for as many iterations as there are items it hands every remaining item to
  \<open>SendSMS\<close> once, in queue order, and leaves the queue empty with one log entry per
  item.
\<close>

theorem sms_sender_single_attempt:
  assumes "sms_queue g = (number, text) # rest"
    and "SendSMS sm \<lparr>msg_Number = number, msg_Text = text, msg_SMSC_Location = 1\<rparr> d = (r, d')"
  shows "\<exists>g'. sms_sender_step sm (d, g) = Some (d', g')
       \<and> sms_queue g' = rest
       \<and> send_blacklist g' = send_blacklist g
       \<and> receive_whitelist g' = receive_whitelist g
       \<and> logging g' = logging g @
           [case r of
              Inl e \<Rightarrow> (ERROR, ''Error while sending SMS message to '' @ number
                                 @ '' ('' @ str_exn e @ '')'')
            | Inr u \<Rightarrow> (INFO, ''Successfully sent SMS message to '' @ number)]
       \<and> sms_sender sm (Suc n) (d, g) = sms_sender sm n (d', g')
       \<and> sms_sender sm (Suc 0) (d, g) = (d', g')
       \<and> (\<forall>number2 text2 rest2 r2 d2.
             rest = (number2, text2) # rest2
             \<and> SendSMS sm \<lparr>msg_Number = number2, msg_Text = text2, msg_SMSC_Location = 1\<rparr> d'
                 = (r2, d2)
             \<longrightarrow> (\<exists>g2. sms_sender sm (Suc (Suc 0)) (d, g) = (d2, g2)
                    \<and> sms_queue g2 = rest2
                    \<and> logging g2 = logging g @
                        [case r of
                           Inl e \<Rightarrow> (ERROR, ''Error while sending SMS message to '' @ number
                                              @ '' ('' @ str_exn e @ '')'')
                         | Inr u \<Rightarrow> (INFO, ''Successfully sent SMS message to '' @ number),
                         case r2 of
                           Inl e \<Rightarrow> (ERROR, ''Error while sending SMS message to '' @ number2
                                              @ '' ('' @ str_exn e @ '')'')
                         | Inr u \<Rightarrow> (INFO, ''Successfully sent SMS message to '' @ number2)]))
       \<and> (\<exists>g3. sms_sender sm (Suc (length rest)) (d, g) =
                  (foldl (\<lambda>d data. snd (SendSMS sm
                            \<lparr>msg_Number = fst data, msg_Text = snd data,
                             msg_SMSC_Location = 1\<rparr> d))
                     d' rest, g3)
              \<and> sms_queue g3 = []
              \<and> length (logging g3) = Suc (length (logging g)) + length rest)"
proof -
  from sms_sender_step_item [OF assms] obtain g' where
    step: "sms_sender_step sm (d, g) = Some (d', g')" and q: "sms_queue g' = rest"
    and bl: "send_blacklist g' = send_blacklist g"
    and wl: "receive_whitelist g' = receive_whitelist g"
    and lg: "logging g' = logging g @
           [case r of
              Inl e \<Rightarrow> (ERROR, ''Error while sending SMS message to '' @ number
                                 @ '' ('' @ str_exn e @ '')'')
            | Inr u \<Rightarrow> (INFO, ''Successfully sent SMS message to '' @ number)]"
    by blast
  from step have loop: "sms_sender sm (Suc n) (d, g) = sms_sender sm n (d', g')"
    for n by simp
  have one: "sms_sender sm (Suc 0) (d, g) = (d', g')"
    using step by simp
  have two: "\<exists>g2. sms_sender sm (Suc (Suc 0)) (d, g) = (d2, g2)
                    \<and> sms_queue g2 = rest2
                    \<and> logging g2 = logging g @
                        [case r of
                           Inl e \<Rightarrow> (ERROR, ''Error while sending SMS message to '' @ number
                                              @ '' ('' @ str_exn e @ '')'')
                         | Inr u \<Rightarrow> (INFO, ''Successfully sent SMS message to '' @ number),
                         case r2 of
                           Inl e \<Rightarrow> (ERROR, ''Error while sending SMS message to '' @ number2
                                              @ '' ('' @ str_exn e @ '')'')
                         | Inr u \<Rightarrow> (INFO, ''Successfully sent SMS message to '' @ number2)]"
    if next_item: "rest = (number2, text2) # rest2"
      and send2: "SendSMS sm \<lparr>msg_Number = number2, msg_Text = text2, msg_SMSC_Location = 1\<rparr> d'
                 = (r2, d2)"
    for number2 text2 rest2 r2 d2
  proof -
    from q next_item have q': "sms_queue g' = (number2, text2) # rest2"
      by simp
    from sms_sender_step_item [OF q' send2] obtain g2 where
      "sms_sender_step sm (d', g') = Some (d2, g2)" and "sms_queue g2 = rest2"
      and "logging g2 = logging g' @
           [case r2 of
              Inl e \<Rightarrow> (ERROR, ''Error while sending SMS message to '' @ number2
                                 @ '' ('' @ str_exn e @ '')'')
            | Inr u \<Rightarrow> (INFO, ''Successfully sent SMS message to '' @ number2)]"
      by blast
    with lg step show ?thesis
      by simp
  qed
  from sms_sender_drains_queue [of sm g' d'] q lg obtain g3 where
    "sms_sender sm (length rest) (d', g') =
       (foldl (\<lambda>d data. snd (SendSMS sm
                 \<lparr>msg_Number = fst data, msg_Text = snd data, msg_SMSC_Location = 1\<rparr> d))
          d' rest, g3)"
    and "sms_queue g3 = []"
    and "length (logging g3) = Suc (length (logging g)) + length rest"
    by auto
  then have all: "\<exists>g3. sms_sender sm (Suc (length rest)) (d, g) =
                  (foldl (\<lambda>d data. snd (SendSMS sm
                            \<lparr>msg_Number = fst data, msg_Text = snd data,
                             msg_SMSC_Location = 1\<rparr> d))
                     d' rest, g3)
              \<and> sms_queue g3 = []
              \<and> length (logging g3) = Suc (length (logging g)) + length rest"
    using step by simp
  from step q bl wl lg loop one two all show ?thesis
    by blast
qed

theorem sms_sender_single_attempt_witness:
  "sms_queue example_queued = (''+300'', ''a'') # [(''+400'', ''b'')]
   \<and> SendSMS example_sm \<lparr>msg_Number = ''+300'', msg_Text = ''a'', msg_SMSC_Location = 1\<rparr>
         example_modem
       = (Inl (GammuError ''ERR_TIMEOUT''),
          example_modem\<lparr>attempted :=
            [\<lparr>msg_Number = ''+300'', msg_Text = ''a'', msg_SMSC_Location = 1\<rparr>]\<rparr>)
   \<and> SendSMS example_sm \<lparr>msg_Number = ''+400'', msg_Text = ''b'', msg_SMSC_Location = 1\<rparr>
         (example_modem\<lparr>attempted :=
            [\<lparr>msg_Number = ''+300'', msg_Text = ''a'', msg_SMSC_Location = 1\<rparr>]\<rparr>)
       = (Inr (),
          example_modem\<lparr>attempted :=
            [\<lparr>msg_Number = ''+300'', msg_Text = ''a'', msg_SMSC_Location = 1\<rparr>,
             \<lparr>msg_Number = ''+400'', msg_Text = ''b'', msg_SMSC_Location = 1\<rparr>]\<rparr>)
   \<and> (\<exists>g'. sms_sender_step example_sm (example_modem, example_queued)
              = Some (example_modem\<lparr>attempted :=
                   [\<lparr>msg_Number = ''+300'', msg_Text = ''a'', msg_SMSC_Location = 1\<rparr>]\<rparr>, g')
          \<and> sms_queue g' = [(''+400'', ''b'')]
          \<and> logging g' =
              [(ERROR, ''Error while sending SMS message to +300 (ERR_TIMEOUT)'')])
   \<and> (\<exists>g2. sms_sender example_sm (Suc (Suc 0)) (example_modem, example_queued)
              = (example_modem\<lparr>attempted :=
                   [\<lparr>msg_Number = ''+300'', msg_Text = ''a'', msg_SMSC_Location = 1\<rparr>,
                    \<lparr>msg_Number = ''+400'', msg_Text = ''b'', msg_SMSC_Location = 1\<rparr>]\<rparr>, g2)
          \<and> sms_queue g2 = []
          \<and> logging g2 =
              [(ERROR, ''Error while sending SMS message to +300 (ERR_TIMEOUT)''),
               (INFO, ''Successfully sent SMS message to +400'')])"
proof -
  let ?m1 = "\<lparr>msg_Number = ''+300'', msg_Text = ''a'', msg_SMSC_Location = 1\<rparr>"
  let ?m2 = "\<lparr>msg_Number = ''+400'', msg_Text = ''b'', msg_SMSC_Location = 1\<rparr>"
  have a: "sms_queue example_queued = (''+300'', ''a'') # [(''+400'', ''b'')]"
    by (simp add: example_queued_def)
  have b: "SendSMS example_sm ?m1 example_modem
       = (Inl (GammuError ''ERR_TIMEOUT''), example_modem\<lparr>attempted := [?m1]\<rparr>)"
    by (simp add: example_sm_def example_modem_def)
  have c: "SendSMS example_sm ?m2 (example_modem\<lparr>attempted := [?m1]\<rparr>)
       = (Inr (), example_modem\<lparr>attempted := [?m1, ?m2]\<rparr>)"
    by (simp add: example_sm_def example_modem_def)
  have l: "logging example_queued = []"
    by (simp add: example_queued_def example_open_def)
  from sms_sender_single_attempt [OF a b, of 0] obtain g' where
    step: "sms_sender_step example_sm (example_modem, example_queued)
       = Some (example_modem\<lparr>attempted := [?m1]\<rparr>, g')"
    and q: "sms_queue g' = [(''+400'', ''b'')]"
    and lg: "logging g' = logging example_queued @
           [case Inl (GammuError ''ERR_TIMEOUT'') of
              Inl e \<Rightarrow> (ERROR, ''Error while sending SMS message to '' @ ''+300''
                                 @ '' ('' @ str_exn e @ '')'')
            | Inr (u::unit) \<Rightarrow> (INFO, ''Successfully sent SMS message to '' @ ''+300'')]"
    and two: "\<forall>number2 text2 rest2 r2 d2.
             [(''+400'', ''b'')] = (number2, text2) # rest2
             \<and> SendSMS example_sm
                 \<lparr>msg_Number = number2, msg_Text = text2, msg_SMSC_Location = 1\<rparr>
                 (example_modem\<lparr>attempted := [?m1]\<rparr>) = (r2, d2)
             \<longrightarrow> (\<exists>g2. sms_sender example_sm (Suc (Suc 0)) (example_modem, example_queued)
                      = (d2, g2)
                    \<and> sms_queue g2 = rest2
                    \<and> logging g2 = logging example_queued @
                        [case Inl (GammuError ''ERR_TIMEOUT'') of
                           Inl e \<Rightarrow> (ERROR, ''Error while sending SMS message to '' @ ''+300''
                                              @ '' ('' @ str_exn e @ '')'')
                         | Inr (u::unit) \<Rightarrow>
                             (INFO, ''Successfully sent SMS message to '' @ ''+300''),
                         case r2 of
                           Inl e \<Rightarrow> (ERROR, ''Error while sending SMS message to '' @ number2
                                              @ '' ('' @ str_exn e @ '')'')
                         | Inr u \<Rightarrow> (INFO, ''Successfully sent SMS message to '' @ number2)])"
    by blast
  from two [rule_format, of "''+400''" "''b''" "[]" "Inr ()" "example_modem\<lparr>attempted := [?m1, ?m2]\<rparr>"] c
  obtain g2 where
    "sms_sender example_sm (Suc (Suc 0)) (example_modem, example_queued)
       = (example_modem\<lparr>attempted := [?m1, ?m2]\<rparr>, g2)"
    and "sms_queue g2 = []"
    and "logging g2 = logging example_queued @
           [(ERROR, ''Error while sending SMS message to +300 (ERR_TIMEOUT)''),
            (INFO, ''Successfully sent SMS message to +400'')]"
    by auto
  with a b c l step q lg show ?thesis
    by simp
qed

section \<open>The inbound poller\<close>

lemma extend_step:
  "\<exists>rest. ms = acc @ x # rest \<and> (\<forall>r\<in>set rest. r \<noteq> []) \<Longrightarrow> x \<noteq> [] \<Longrightarrow>
   \<exists>rest. ms = acc @ rest \<and> (\<forall>r\<in>set rest. r \<noteq> [])"
  by force

text \<open>
  Whatever the loop does from a given state on, the records it had already appended
  stay at the front of its result, and whatever it appends is a non-empty record.
\<close>

lemma drain_extends:
  "drain sm start sms remain acc d = ((err, ms), d') \<Longrightarrow>
   \<exists>rest. ms = acc @ rest \<and> (\<forall>r\<in>set rest. r \<noteq> [])"
proof (induction sm start sms remain acc d rule: drain.induct)
  case (1 sm start sms remain acc d)
  show ?case
  proof (cases "remain > 0")
    case False
    with "1.prems" show ?thesis by (simp add: drain.simps)
  next
    case True
    show ?thesis
      using "1.prems" "1.IH" True
      apply (subst (asm) drain.simps)
      apply (auto split: if_splits prod.splits sum.splits list.splits)
       apply (rule extend_step, blast, simp)+
      done
  qed
qed

lemma drain_nonempty:
  assumes "drain sm start sms remain [] d = ((err, ms), d')"
  shows "\<forall>r\<in>set ms. r \<noteq> []"
  using drain_extends [OF assms] by simp

lemma fetch_all_nonempty:
  assumes "fetch_all sm d = ((err, ms), d')"
  shows "\<forall>r\<in>set ms. r \<noteq> []"
proof (cases "GetSMSStatus sm d")
  case (Pair r d1)
  show ?thesis
  proof (cases r)
    case (Inl e)
    with Pair assms show ?thesis by (simp add: fetch_all_def)
  next
    case (Inr status)
    with Pair assms have
      "drain sm True [] (SIMUsed status + PhoneUsed status + TemplatesUsed status) [] d1
         = ((err, ms), d')"
      by (simp add: fetch_all_def)
    then show ?thesis by (rule drain_nonempty)
  qed
qed

lemma dispatch_total:
  "\<forall>r\<in>set ms. r \<noteq> [] \<Longrightarrow> \<exists>g'. dispatch ms g = Inr g'"
  by (induction ms arbitrary: g) (auto split: list.splits)

lemma dispatch_append:
  "dispatch (xs @ ys) g =
     (case dispatch xs g of Inl e \<Rightarrow> Inl e | Inr g1 \<Rightarrow> dispatch ys g1)"
  by (induction xs arbitrary: g) (auto split: list.splits)

text \<open>A cycle never ends with an exception, so the poller always reaches its next cycle.\<close>

lemma sms_reader_cycle_total: "\<exists>s'. sms_reader_cycle sm s = Inr s'"
proof -
  obtain d g where s: "s = (d, g)" by (cases s)
  obtain err ms d' where f: "fetch_all sm d = ((err, ms), d')"
    by (metis prod.exhaust)
  from fetch_all_nonempty [OF f] have ne: "\<forall>r\<in>set ms. r \<noteq> []" .
  show ?thesis
  proof (cases err)
    case None
    with dispatch_total [OF ne, of g] s f show ?thesis
      by (auto simp: sms_reader_cycle_def)
  next
    case (Some e)
    with dispatch_total [OF ne, of "log_msg CRITICAL (''Could not read SMS messages ('' @ str_exn e @ '')'') g"] s f
    show ?thesis
      by (auto simp: sms_reader_cycle_def)
  qed
qed

lemma sms_reader_total: "\<exists>s'. sms_reader sm n s = Inr s'"
proof (induction n arbitrary: s)
  case 0
  show ?case by simp
next
  case (Suc n)
  obtain s1 where "sms_reader_cycle sm s = Inr s1"
    using sms_reader_cycle_total by blast
  with Suc show ?case by simp
qed

text \<open>
  One successful iteration, a fetch followed by its delete, takes the loop to the state
  in which the fetched record has been appended.
\<close>

lemma drain_first_iteration:
  assumes "0 < remain" and "GetNextSMS sm None d = (Inr (q # qs), d1)"
    and "DeleteSMS sm (Location q) d1 = (Inr u, d2)"
  shows "drain sm True sms remain acc d
           = drain sm False (q # qs) (remain - int (length (q # qs))) (acc @ [q # qs]) d2"
  using assms by (subst drain.simps) simp

lemma drain_next_iteration:
  assumes "0 < remain" and "GetNextSMS sm (Some (Location p)) d = (Inr (q # qs), d1)"
    and "DeleteSMS sm (Location q) d1 = (Inr u, d2)"
  shows "drain sm False (p # ps) remain acc d
           = drain sm False (q # qs) (remain - int (length (q # qs))) (acc @ [q # qs]) d2"
  using assms by (subst drain.simps) simp

text \<open>When the status query itself raises, nothing was fetched and only the log changes.\<close>

lemma sms_reader_cycle_status_error:
  assumes "GetSMSStatus sm d = (Inl e, d1)"
  shows "sms_reader_cycle sm (d, g)
           = Inr (d1, log_msg CRITICAL (''Could not read SMS messages ('' @ str_exn e @ '')'') g)"
  using assms by (simp add: sms_reader_cycle_def fetch_all_def)

lemma fetched_and_deleted_nonempty:
  "fetched_and_deleted sm cursor remain d rs = Some x \<Longrightarrow> \<forall>r\<in>set rs. r \<noteq> []"
  by (induction rs arbitrary: cursor remain d)
     (auto split: list.splits if_splits prod.splits sum.splits)

text \<open>
  While the device delivers and deletes the records \<open>rs\<close>, the loop appends them to
  its list, whatever it holds so far.
\<close>

lemma drain_fetched_and_deleted:
  "fetched_and_deleted sm cursor remain d rs = Some (cursor', remain', d2) \<Longrightarrow>
   at_cursor start sms cursor \<Longrightarrow>
   \<exists>start' sms'. at_cursor start' sms' cursor'
      \<and> drain sm start sms remain acc d = drain sm start' sms' remain' (acc @ rs) d2"
proof (induction rs arbitrary: cursor remain d start sms acc)
  case Nil
  then show ?case by auto
next
  case (Cons r rs)
  from Cons.prems(1) obtain q qs d1 u d3 where r: "r = q # qs" and pos: "0 < remain"
    and get: "GetNextSMS sm cursor d = (Inr r, d1)"
    and del: "DeleteSMS sm (Location q) d1 = (Inr u, d3)"
    and rest: "fetched_and_deleted sm (Some (Location q)) (remain - int (length r)) d3 rs
                 = Some (cursor', remain', d2)"
    by (auto split: list.splits if_splits prod.splits sum.splits)
  have "at_cursor False r (Some (Location q))"
    by (simp add: at_cursor_def r)
  from Cons.IH [OF rest this, of "acc @ [r]"] obtain start' sms' where
    at: "at_cursor start' sms' cursor'"
    and tail: "drain sm False r (remain - int (length r)) (acc @ [r]) d3
                 = drain sm start' sms' remain' (acc @ r # rs) d2"
    by auto
  have "drain sm start sms remain acc d
          = drain sm False r (remain - int (length r)) (acc @ [r]) d3"
  proof (cases start)
    case True
    with Cons.prems(2) get have "GetNextSMS sm None d = (Inr (q # qs), d1)"
      by (simp add: at_cursor_def r)
    from drain_first_iteration [OF pos this del] True show ?thesis
      by (simp add: r)
  next
    case False
    with Cons.prems(2) obtain p ps where sms: "sms = p # ps"
      and c: "cursor = Some (Location p)"
      by (auto simp: at_cursor_def split: list.splits)
    from get c have "GetNextSMS sm (Some (Location p)) d = (Inr (q # qs), d1)"
      by (simp add: r)
    from drain_next_iteration [OF pos this del] False sms show ?thesis
      by (simp add: r)
  qed
  with at tail show ?case
    by auto
qed

text \<open>A round that does not complete ends the loop with the list it holds.\<close>

lemma drain_failing_round:
  assumes "0 < remain" and "at_cursor start sms cursor"
    and "failing_round sm cursor d = Some (e, d')"
  shows "drain sm start sms remain acc d = ((Some e, acc), d')"
  using assms
  by (subst drain.simps)
     (auto simp: at_cursor_def failing_round_def
        split: list.splits if_splits prod.splits sum.splits)

lemma dispatch_handle_record:
  "\<forall>r\<in>set rs. r \<noteq> [] \<Longrightarrow> dispatch rs g = Inr (foldl handle_record g rs)"
  by (induction rs arbitrary: g) (auto simp: handle_record_def split: list.splits)

text \<open>
  C7. Suppose the status query of a cycle succeeds, the device then delivers and
  deletes the records \<open>rs\<close>, one after the other, while parts are still counted as
  pending, and the next round fails with the exception \<open>e\<close>. Then the \<open>try\<close> block
  ends with \<open>e\<close> and exactly the records \<open>rs\<close>; the cycle logs \<open>e\<close> as critical and
  then hands every record of \<open>rs\<close> to the command interpreter, in the order in which
  they were fetched; the cycle ends normally; and the poller goes on: its next cycles
  run from the state this cycle leaves, and none of them ends the loop.
\<close>

theorem sms_reader_keeps_fetched:
  assumes status: "GetSMSStatus sm d = (Inr status, d1)"
    and run: "fetched_and_deleted sm None
                (SIMUsed status + PhoneUsed status + TemplatesUsed status) d1 rs
                = Some (cursor, remain, d2)"
    and more: "0 < remain"
    and fail: "failing_round sm cursor d2 = Some (e, d')"
  shows "\<exists>g'. g' = foldl handle_record
                   (log_msg CRITICAL
                      (''Could not read SMS messages ('' @ str_exn e @ '')'') g) rs
       \<and> fetch_all sm d = ((Some e, rs), d')
       \<and> sms_reader_cycle sm (d, g) = Inr (d', g')
       \<and> sms_reader sm (Suc 0) (d, g) = Inr (d', g')
       \<and> (\<exists>s'. sms_reader sm (Suc n) (d, g) = Inr s' \<and> sms_reader sm n (d', g') = Inr s')"
proof -
  let ?g0 = "log_msg CRITICAL (''Could not read SMS messages ('' @ str_exn e @ '')'') g"
  let ?total = "SIMUsed status + PhoneUsed status + TemplatesUsed status"
  have "at_cursor True [] None"
    by (simp add: at_cursor_def)
  from drain_fetched_and_deleted [OF run this, of "[]"] obtain start' sms' where
    at: "at_cursor start' sms' cursor"
    and "drain sm True [] ?total [] d1 = drain sm start' sms' remain ([] @ rs) d2"
    by blast
  with drain_failing_round [OF more at fail, of rs]
  have "drain sm True [] ?total [] d1 = ((Some e, rs), d')"
    by simp
  with status have f: "fetch_all sm d = ((Some e, rs), d')"
    by (simp add: fetch_all_def)
  from fetched_and_deleted_nonempty [OF run] have "\<forall>r\<in>set rs. r \<noteq> []" .
  then have "dispatch rs ?g0 = Inr (foldl handle_record ?g0 rs)"
    by (rule dispatch_handle_record)
  with f have cyc: "sms_reader_cycle sm (d, g) = Inr (d', foldl handle_record ?g0 rs)"
    by (simp add: sms_reader_cycle_def)
  then have one: "sms_reader sm (Suc 0) (d, g) = Inr (d', foldl handle_record ?g0 rs)"
    by simp
  obtain s' where "sms_reader sm n (d', foldl handle_record ?g0 rs) = Inr s'"
    using sms_reader_total by blast
  with cyc have "sms_reader sm (Suc n) (d, g) = Inr s'
      \<and> sms_reader sm n (d', foldl handle_record ?g0 rs) = Inr s'"
    by simp
  with f cyc one show ?thesis
    by blast
qed

lemma lower_ping_lower: "lower ''ping'' = ''ping''"
  by code_simp

lemma lower_status: "lower ''status'' = ''status''"
  by code_simp

theorem sms_reader_keeps_fetched_witness:
  "GetSMSStatus example_sm example_modem
     = (Inr \<lparr>SIMUsed = 4, PhoneUsed = 0, TemplatesUsed = 0\<rparr>, example_modem)
   \<and> fetched_and_deleted example_sm None 4 example_modem
       [[example_first], [example_second, example_third]]
     = Some (Some 2, 1, example_modem\<lparr>inbox := []\<rparr>)
   \<and> (0::int) < 1
   \<and> failing_round example_sm (Some 2) (example_modem\<lparr>inbox := []\<rparr>)
     = Some (GammuError ''ERR_EMPTY'', example_modem\<lparr>inbox := []\<rparr>)
   \<and> fetch_all example_sm example_modem
     = ((Some (GammuError ''ERR_EMPTY''), [[example_first], [example_second, example_third]]),
        example_modem\<lparr>inbox := []\<rparr>)
   \<and> sms_reader_cycle example_sm (example_modem, example_open)
     = Inr (example_modem\<lparr>inbox := []\<rparr>,
            \<lparr>receive_whitelist = [''+100''], send_blacklist = [],
             sms_queue = [(''+100'', ''PONG''), (''+100'', ''ERROR'')],
             logging = [(CRITICAL, ''Could not read SMS messages (ERR_EMPTY)''),
                        (INFO, ''Received SMS message from +100''),
                        (INFO, ''Received SMS message from +100'')]\<rparr>)
   \<and> (\<exists>s'. sms_reader example_sm (Suc (Suc 0)) (example_modem, example_open) = Inr s')"
proof -
  let ?status = "\<lparr>SIMUsed = 4, PhoneUsed = 0, TemplatesUsed = 0\<rparr>"
  let ?d2 = "example_modem\<lparr>inbox := []\<rparr>"
  let ?rs = "[[example_first], [example_second, example_third]]"
  let ?g = "\<lparr>receive_whitelist = [''+100''], send_blacklist = [],
             sms_queue = [(''+100'', ''PONG''), (''+100'', ''ERROR'')],
             logging = [(CRITICAL, ''Could not read SMS messages (ERR_EMPTY)''),
                        (INFO, ''Received SMS message from +100''),
                        (INFO, ''Received SMS message from +100'')]\<rparr>"
  have a: "GetSMSStatus example_sm example_modem = (Inr ?status, example_modem)"
    by (simp add: example_sm_def example_modem_def)
  have b: "fetched_and_deleted example_sm None 4 example_modem ?rs = Some (Some 2, 1, ?d2)"
    by (simp add: example_sm_def example_modem_def example_first_def example_second_def
        example_third_def)
  have b': "fetched_and_deleted example_sm None
              (SIMUsed ?status + PhoneUsed ?status + TemplatesUsed ?status) example_modem ?rs
              = Some (Some 2, 1, ?d2)"
    using b by simp
  have c: "(0::int) < 1"
    by simp
  have d: "failing_round example_sm (Some 2) ?d2 = Some (GammuError ''ERR_EMPTY'', ?d2)"
    by (simp add: failing_round_def example_sm_def example_modem_def)
  have h: "foldl handle_record
             (log_msg CRITICAL
                (''Could not read SMS messages ('' @ str_exn (GammuError ''ERR_EMPTY'') @ '')'')
                example_open) ?rs = ?g"
    by (simp add: handle_record_def example_open_def example_first_def example_second_def
        example_third_def log_msg_def read_sms_def send_sms_def Let_def lower_ping_lower
        lower_status)
  from sms_reader_keeps_fetched [OF a b' c d, of example_open "Suc 0"] h
  have "fetch_all example_sm example_modem = ((Some (GammuError ''ERR_EMPTY''), ?rs), ?d2)"
    and "sms_reader_cycle example_sm (example_modem, example_open) = Inr (?d2, ?g)"
    and "\<exists>s'. sms_reader example_sm (Suc (Suc 0)) (example_modem, example_open) = Inr s'"
    by auto
  with a b c d show ?thesis
    by simp
qed

section \<open>The ingress handler\<close>

lemma enqueue_each_blacklist: "send_blacklist (enqueue_each ps g) = send_blacklist g"
  unfolding enqueue_each_def
  by (induction ps arbitrary: g) (auto simp: send_sms_send_blacklist)

lemma enqueue_each_queue:
  "sms_queue (enqueue_each ps g)
     = sms_queue g @ filter (\<lambda>(number, message). number \<notin> set (send_blacklist g)) ps"
  unfolding enqueue_each_def
proof (induction ps arbitrary: g)
  case Nil
  show ?case by simp
next
  case (Cons p ps)
  obtain number message where p: "p = (number, message)" by (cases p)
  show ?case
    by (simp add: p Cons.IH send_sms_send_blacklist) (simp add: send_sms_def log_msg_def)
qed

lemma send_loop_pairs:
  "send_loop numbers messages g = enqueue_each (recipient_major_pairs numbers messages) g"
  by (induction numbers arbitrary: g)
     (simp_all add: send_loop_def recipient_major_pairs_def enqueue_each_def foldl_map)

text \<open>Reading a POST body changes nothing but the log.\<close>

lemma collect_messages_state:
  "collect_messages xs (acc, g) = (ms, g') \<Longrightarrow>
   sms_queue g' = sms_queue g \<and> send_blacklist g' = send_blacklist g
   \<and> receive_whitelist g' = receive_whitelist g"
  by (induction xs "(acc, g)" arbitrary: acc g rule: collect_messages.induct)
     (auto simp: log_msg_def)

lemma read_post_state:
  "read_post fmt data g = (r, g') \<Longrightarrow>
   sms_queue g' = sms_queue g \<and> send_blacklist g' = send_blacklist g
   \<and> receive_whitelist g' = receive_whitelist g"
  by (auto simp: read_post_def
      split: sum.splits option.splits bool.splits prod.splits
      dest: collect_messages_state)

text \<open>
  A POST request with a number parameter and a JSON object whose \<open>message\<close> is a
  string, or which has no such string and whose \<open>messages\<close> is a list of strings,
  is answered ok after the loops have run.
\<close>

lemma map_of_in_keys: "map_of kvs k = Some v \<Longrightarrow> k \<in> fst ` set kvs"
  by (induction kvs) (auto split: if_splits)

lemma collect_messages_strings:
  "collect_messages (map JString ms) (acc, g) = (acc @ ms, g)"
  by (induction ms arbitrary: acc) auto

lemma receive_sms_post_message:
  assumes "req_method req = POST" and "arg_number req = Some n"
    and "json_data req = Inr (JObject kvs)" and "map_of kvs ''message'' = Some (JString m)"
  shows "receive_sms fmt req g = (Inr ok_response, send_loop (py_split n CHR '','') [m] g)"
  using assms map_of_in_keys [OF assms(4)]
  by (simp add: receive_sms_def read_post_def has_unicode_def)

lemma receive_sms_post_messages:
  assumes "req_method req = POST" and "arg_number req = Some n"
    and "json_data req = Inr (JObject kvs)"
    and "\<forall>m. map_of kvs ''message'' \<noteq> Some (JString m)"
    and "map_of kvs ''messages'' = Some (JArray (map JString ms))"
  shows "receive_sms fmt req g = (Inr ok_response, send_loop (py_split n CHR '','') ms g)"
proof -
  have "has_unicode (JObject kvs) ''message'' = Inr None"
    using assms(4)
    by (force simp: has_unicode_def map_of_eq_None_iff
        split: option.splits json.splits bool.splits sum.splits)
  moreover have "has_list (JObject kvs) ''messages'' = Inr (Some (map JString ms))"
    using assms(5) map_of_in_keys [OF assms(5)] by (simp add: has_list_def)
  ultimately show ?thesis
    using assms(1-3)
    by (simp add: receive_sms_def read_post_def collect_messages_strings)
qed

lemma receive_sms_get:
  assumes "req_method req = GET" and "arg_number req = Some n"
    and "arg_message req = Some m" and "m \<noteq> []"
  shows "receive_sms fmt req g = (Inr ok_response, send_loop (py_split n CHR '','') [m] g)"
  using assms by (simp add: receive_sms_def)

lemma receive_sms_post:
  assumes "req_method req = POST" and "arg_number req = Some n"
    and "json_data req = Inr data" and "read_post fmt data g = (Inr (Some messages), g0)"
  shows "receive_sms fmt req g = (Inr ok_response, send_loop (py_split n CHR '','') messages g0)"
  using assms by (simp add: receive_sms_def)

lemma send_loop_no_message: "send_loop numbers [] g = g"
  by (induction numbers) (simp_all add: send_loop_def)

lemma receive_sms_head:
  assumes "req_method req = HEAD" and "arg_number req = Some n"
  shows "receive_sms fmt req g = (Inr ok_response, g)"
  using assms by (simp add: receive_sms_def send_loop_no_message)

lemma receive_sms_accepted:
  assumes "receive_sms fmt req g = (Inr ok_response, g')"
  shows "\<exists>n messages g0. arg_number req = Some n
       \<and> sms_queue g0 = sms_queue g \<and> send_blacklist g0 = send_blacklist g
       \<and> g' = send_loop (py_split n CHR '','') messages g0"
proof (cases "arg_number req")
  case None
  with assms show ?thesis
    by (simp add: receive_sms_def ok_response_def error_response_def)
next
  case (Some n)
  show ?thesis
  proof (cases "req_method req")
    case GET
    with Some assms show ?thesis
      by (auto simp: receive_sms_def ok_response_def error_response_def
          split: option.splits if_splits)
  next
    case HEAD
    with Some assms have "g' = send_loop (py_split n CHR '','') [] g"
      by (simp add: receive_sms_def)
    with Some show ?thesis by blast
  next
    case POST
    show ?thesis
    proof (cases "json_data req")
      case (Inl m)
      with POST Some assms show ?thesis
        by (simp add: receive_sms_def ok_response_def error_response_def)
    next
      case (Inr data)
      obtain r g0 where rp: "read_post fmt data g = (r, g0)"
        by (cases "read_post fmt data g")
      with POST Some Inr assms obtain messages where
        "r = Inr (Some messages)" and "g' = send_loop (py_split n CHR '','') messages g0"
        by (auto simp: receive_sms_def ok_response_def error_response_def
            split: sum.splits option.splits)
      with read_post_state [OF rp] Some show ?thesis
        by blast
    qed
  qed
qed

text \<open>
  C8. Whatever request the handler accepts, it calls the enqueue operation once for
  each pair of \<open>recipient_major_pairs\<close> of the numbers and the messages it read, in that
  order: for a GET request the numbers of the \<open>number\<close> parameter and the one message
  of the \<open>message\<close> parameter; for a POST request the numbers and the messages that
  \<open>read_post\<close> takes from the body, which are the string \<open>message\<close> of an object, or
  else the strings of its list \<open>messages\<close>. Every accepted request has this shape.
  The nested loops are such a pass, and the queue grows by these pairs in this order,
  less those whose recipient is blocked. For the numbers \<open>A,B\<close> and the messages
  \<open>m1\<close>, \<open>m2\<close> the handler answers ok and leaves the queue
  \<open>(A,m1), (A,m2), (B,m1), (B,m2)\<close>.
\<close>

theorem receive_sms_enqueue_order:
  "(req_method req = GET \<and> arg_number req = Some n \<and> arg_message req = Some m \<and> m \<noteq> []
      \<longrightarrow> receive_sms fmt req g
            = (Inr ok_response,
               enqueue_each (recipient_major_pairs (py_split n CHR '','') [m]) g))
   \<and> (req_method req = POST \<and> arg_number req = Some n \<and> json_data req = Inr data
       \<and> read_post fmt data g = (Inr (Some messages), g0)
      \<longrightarrow> receive_sms fmt req g
            = (Inr ok_response,
               enqueue_each (recipient_major_pairs (py_split n CHR '','') messages) g0))
   \<and> (req_method req = POST \<and> arg_number req = Some n \<and> json_data req = Inr (JObject kvs)
       \<and> map_of kvs ''message'' = Some (JString m)
      \<longrightarrow> receive_sms fmt req g
            = (Inr ok_response,
               enqueue_each (recipient_major_pairs (py_split n CHR '','') [m]) g))
   \<and> (req_method req = POST \<and> arg_number req = Some n \<and> json_data req = Inr (JObject kvs)
       \<and> (\<forall>m. map_of kvs ''message'' \<noteq> Some (JString m))
       \<and> map_of kvs ''messages'' = Some (JArray (map JString ms))
      \<longrightarrow> receive_sms fmt req g
            = (Inr ok_response,
               enqueue_each (recipient_major_pairs (py_split n CHR '','') ms) g))
   \<and> (receive_sms fmt req g = (Inr ok_response, g')
      \<longrightarrow> (\<exists>n messages g0. arg_number req = Some n
             \<and> sms_queue g0 = sms_queue g \<and> send_blacklist g0 = send_blacklist g
             \<and> g' = enqueue_each (recipient_major_pairs (py_split n CHR '','') messages) g0))
   \<and> send_loop numbers messages g
       = enqueue_each (recipient_major_pairs numbers messages) g
   \<and> enqueue_each pairs g = foldl (\<lambda>g (number, message). send_sms g number message) g pairs
   \<and> sms_queue (enqueue_each pairs g)
       = sms_queue g @ filter (\<lambda>(number, message). number \<notin> set (send_blacklist g)) pairs
   \<and> recipient_major_pairs [''A'', ''B''] [''m1'', ''m2'']
       = [(''A'', ''m1''), (''A'', ''m2''), (''B'', ''m1''), (''B'', ''m2'')]
   \<and> receive_sms fmt
       \<lparr>req_method = POST, arg_number = Some ''A,B'', arg_message = None,
        json_data = Inr (JObject [(''messages'', JArray [JString ''m1'', JString ''m2''])])\<rparr>
       example_open
     = (Inr ok_response,
        example_open\<lparr>sms_queue :=
          [(''A'', ''m1''), (''A'', ''m2''), (''B'', ''m1''), (''B'', ''m2'')]\<rparr>)"
proof -
  have 1: "req_method req = GET \<and> arg_number req = Some n \<and> arg_message req = Some m \<and> m \<noteq> []
      \<longrightarrow> receive_sms fmt req g
            = (Inr ok_response,
               enqueue_each (recipient_major_pairs (py_split n CHR '','') [m]) g)"
    by (simp add: receive_sms_get send_loop_pairs)
  have 2: "req_method req = POST \<and> arg_number req = Some n \<and> json_data req = Inr data
       \<and> read_post fmt data g = (Inr (Some messages), g0)
      \<longrightarrow> receive_sms fmt req g
            = (Inr ok_response,
               enqueue_each (recipient_major_pairs (py_split n CHR '','') messages) g0)"
    by (simp add: receive_sms_post send_loop_pairs)
  have 3: "req_method req = POST \<and> arg_number req = Some n \<and> json_data req = Inr (JObject kvs)
       \<and> map_of kvs ''message'' = Some (JString m)
      \<longrightarrow> receive_sms fmt req g
            = (Inr ok_response,
               enqueue_each (recipient_major_pairs (py_split n CHR '','') [m]) g)"
    by (simp add: receive_sms_post_message send_loop_pairs)
  have 4: "req_method req = POST \<and> arg_number req = Some n \<and> json_data req = Inr (JObject kvs)
       \<and> (\<forall>m. map_of kvs ''message'' \<noteq> Some (JString m))
       \<and> map_of kvs ''messages'' = Some (JArray (map JString ms))
      \<longrightarrow> receive_sms fmt req g
            = (Inr ok_response,
               enqueue_each (recipient_major_pairs (py_split n CHR '','') ms) g)"
    by (simp add: receive_sms_post_messages send_loop_pairs)
  have 5: "receive_sms fmt req g = (Inr ok_response, g')
      \<longrightarrow> (\<exists>n messages g0. arg_number req = Some n
             \<and> sms_queue g0 = sms_queue g \<and> send_blacklist g0 = send_blacklist g
             \<and> g' = enqueue_each (recipient_major_pairs (py_split n CHR '','') messages) g0)"
    using receive_sms_accepted [of fmt req g g'] by (simp add: send_loop_pairs)
  have 6: "send_loop numbers messages g
       = enqueue_each (recipient_major_pairs numbers messages) g"
    by (rule send_loop_pairs)
  have 7: "enqueue_each pairs g
       = foldl (\<lambda>g (number, message). send_sms g number message) g pairs"
    by (simp add: enqueue_each_def)
  have 8: "sms_queue (enqueue_each pairs g)
       = sms_queue g @ filter (\<lambda>(number, message). number \<notin> set (send_blacklist g)) pairs"
    by (rule enqueue_each_queue)
  have 9: "recipient_major_pairs [''A'', ''B''] [''m1'', ''m2'']
     = [(''A'', ''m1''), (''A'', ''m2''), (''B'', ''m1''), (''B'', ''m2'')]"
    by (simp add: recipient_major_pairs_def)
  have 10: "receive_sms fmt
       \<lparr>req_method = POST, arg_number = Some ''A,B'', arg_message = None,
        json_data = Inr (JObject [(''messages'', JArray [JString ''m1'', JString ''m2''])])\<rparr>
       example_open
     = (Inr ok_response,
        example_open\<lparr>sms_queue :=
          [(''A'', ''m1''), (''A'', ''m2''), (''B'', ''m1''), (''B'', ''m2'')]\<rparr>)"
    by (simp add: receive_sms_def read_post_def has_unicode_def has_list_def send_loop_def
        send_sms_def example_open_def)
  from 1 2 3 4 5 6 7 8 9 10 show ?thesis
    by blast
qed

theorem receive_sms_enqueue_order_witness:
  "req_method \<lparr>req_method = GET, arg_number = Some ''A,B'', arg_message = Some ''m1'',
                json_data = Inl []\<rparr> = GET
   \<and> sms_queue (snd (receive_sms (\<lambda>v. [])
        \<lparr>req_method = GET, arg_number = Some ''A,B'', arg_message = Some ''m1'',
         json_data = Inl []\<rparr> example_open))
     = [(''A'', ''m1''), (''B'', ''m1'')]
   \<and> map_of [(''messages'', JArray (map JString [''m1'', ''m2'']))] ''messages''
     = Some (JArray (map JString [''m1'', ''m2'']))
   \<and> sms_queue (snd (receive_sms (\<lambda>v. [])
        \<lparr>req_method = POST, arg_number = Some ''A,B'', arg_message = None,
         json_data = Inr (JObject [(''messages'', JArray (map JString [''m1'', ''m2'']))])\<rparr>
        example_open))
     = [(''A'', ''m1''), (''A'', ''m2''), (''B'', ''m1''), (''B'', ''m2'')]"
proof -
  let ?get = "\<lparr>req_method = GET, arg_number = Some ''A,B'', arg_message = Some ''m1'',
               json_data = Inl []\<rparr>"
  let ?kvs = "[(''messages'', JArray (map JString [''m1'', ''m2'']))]"
  let ?post = "\<lparr>req_method = POST, arg_number = Some ''A,B'', arg_message = None,
               json_data = Inr (JObject ?kvs)\<rparr>"
  have q: "sms_queue example_open = []" and l: "send_blacklist example_open = []"
    by (simp_all add: example_open_def)
  have sp: "py_split ''A,B'' CHR '','' = [''A'', ''B'']"
    by simp
  have p1: "recipient_major_pairs [''A'', ''B''] [''m1''] = [(''A'', ''m1''), (''B'', ''m1'')]"
    and p2: "recipient_major_pairs [''A'', ''B''] [''m1'', ''m2'']
      = [(''A'', ''m1''), (''A'', ''m2''), (''B'', ''m1''), (''B'', ''m2'')]"
    by (simp_all add: recipient_major_pairs_def)
  note get = receive_sms_enqueue_order
      [of ?get "''A,B''" "''m1''" "\<lambda>v. []" example_open, THEN conjunct1]
  note post = receive_sms_enqueue_order
      [of ?post "''A,B''" _ "\<lambda>v. []" example_open _ _ _ ?kvs "[''m1'', ''m2'']",
       THEN conjunct2, THEN conjunct2, THEN conjunct2, THEN conjunct1]
  note queue = receive_sms_enqueue_order
      [of ?get "''A,B''" "''m1''" "\<lambda>v. []" example_open,
       THEN conjunct2, THEN conjunct2, THEN conjunct2, THEN conjunct2,
       THEN conjunct2, THEN conjunct2, THEN conjunct2, THEN conjunct1]
  from get have "receive_sms (\<lambda>v. []) ?get example_open
      = (Inr ok_response, enqueue_each [(''A'', ''m1''), (''B'', ''m1'')] example_open)"
    by (simp add: sp p1)
  with queue [of "[(''A'', ''m1''), (''B'', ''m1'')]"] q l
  have 1: "sms_queue (snd (receive_sms (\<lambda>v. []) ?get example_open))
      = [(''A'', ''m1''), (''B'', ''m1'')]"
    by simp
  from post have "receive_sms (\<lambda>v. []) ?post example_open
      = (Inr ok_response,
         enqueue_each [(''A'', ''m1''), (''A'', ''m2''), (''B'', ''m1''), (''B'', ''m2'')]
           example_open)"
    by (simp add: sp p2)
  with queue [of "[(''A'', ''m1''), (''A'', ''m2''), (''B'', ''m1''), (''B'', ''m2'')]"] q l
  have 2: "sms_queue (snd (receive_sms (\<lambda>v. []) ?post example_open))
      = [(''A'', ''m1''), (''A'', ''m2''), (''B'', ''m1''), (''B'', ''m2'')]"
    by simp
  from 1 2 show ?thesis
    by simp
qed

text \<open>A missing number parameter and a body that does not parse get the error answer.\<close>

lemma receive_sms_missing_number:
  "arg_number req = None \<Longrightarrow>
   receive_sms fmt req g =
     (Inr (error_response ''could not read phone numbers''),
      log_msg ERROR ''Could not read phone numbers'' g)"
  by (simp add: receive_sms_def)

lemma receive_sms_unparsable_body:
  "req_method req = POST \<Longrightarrow> arg_number req = Some n \<Longrightarrow> json_data req = Inl m \<Longrightarrow>
   receive_sms fmt req g =
     (Inr (error_response ''could not read JSON data''),
      log_msg ERROR (''Could not read POST data ('' @ m @ '')'') g)"
  by (simp add: receive_sms_def)

text \<open>A JSON object without the keys \<open>message\<close>, \<open>messages\<close> and \<open>alerts\<close> gets the error answer.\<close>

lemma receive_sms_object_without_message:
  assumes "req_method req = POST" and "arg_number req = Some n"
    and "json_data req = Inr (JObject kvs)"
    and "''message'' \<notin> fst ` set kvs" and "''messages'' \<notin> fst ` set kvs"
    and "''alerts'' \<notin> fst ` set kvs"
  shows "receive_sms fmt req g =
     (Inr (error_response ''could not read message from JSON''),
      log_msg ERROR ''Could not read message from JSON'' g)"
  using assms by (simp add: receive_sms_def read_post_def has_unicode_def has_list_def)

text \<open>
  C9 fails on the code for a body that parses but is not an object: for the body
  \<open>null\<close> the test \<open>'message' in data\<close> raises \<open>TypeError\<close>, which
  \<open>except ValueError\<close> does not catch, so the handler returns no response of its own.
\<close>

theorem receive_sms_null_body_raises:
  "receive_sms fmt
     \<lparr>req_method = POST, arg_number = Some ''+200'', arg_message = None,
      json_data = Inr JNull\<rparr> g
   = (Inl (TypeError ''argument of type NoneType is not iterable''), g)"
  by (simp add: receive_sms_def read_post_def has_unicode_def)

end
